theory Spec2Isabelle
  imports Main "HOL-Library.Multiset"
begin

section \<open>Data model\<close>

text \<open>
  The enumerations \<open>GameState\<close> and \<open>Suit\<close>, and the class \<open>Card\<close> with its two fields.
  A TypeScript \<open>number\<close> holding a rank, an index or a count is modelled as \<open>int\<close>.
\<close>

datatype GameState = NOT_STARTED | STARTED

datatype Suit = HEART | SPADE | CLUB | DIAMOND

record Card =
  suit :: Suit
  rank :: int

text \<open>
  \<open>Card.getValue\<close> returns the field \<open>value\<close> (the record field is called \<open>rank\<close>, since
  \<open>value\<close> is a reserved word of the theory language).
\<close>

definition getValue :: "Card \<Rightarrow> int" where
  "getValue c = rank c"

text \<open>
  \<open>Card.equals(obj)\<close>: true for the same object, false for anything that is not a card
  (\<open>null\<close> included), otherwise both fields are compared. Cards are values here, so the
  same object has the same fields.
\<close>

fun equals :: "Card \<Rightarrow> Card option \<Rightarrow> bool" where
  "equals c None = False"
| "equals c (Some that) = (rank c = rank that \<and> suit c = suit that)"

text \<open>
  Every failure of the engine is a thrown \<open>Error\<close> with a message; the messages are grouped
  into the kinds below. \<open>TypeError\<close> is what the runtime throws when a method is called on
  \<open>null\<close>.
\<close>

datatype error =
    InvalidDeck
  | InsufficientCards
  | InvalidLayout
  | NotStarted
  | OutOfBounds
  | EmptySlot
  | InvalidMove
  | Covered
  | TypeError

text \<open>
  The fields of \<open>AbstractPyramidSolitaire\<close>. A slot of an array of cards holds a card or
  \<open>null\<close> (\<open>None\<close>); \<open>undefined\<close>, which the code only ever compares with \<open>== null\<close>,
  is \<open>None\<close> as well. Before \<open>startGame\<close> the three arrays are not yet assigned; no public
  method reads them in that state, and they are modelled as empty.
\<close>

record game =
  pyramid :: "Card option list list"
  stock :: "Card option list"
  draws :: "Card option list"
  gamestate :: GameState

definition removalValue :: int where
  "removalValue = 13"

text \<open>The constructor: only \<open>gamestate\<close> is set.\<close>

definition newGame :: game where
  "newGame = \<lparr>pyramid = [], stock = [], draws = [], gamestate = NOT_STARTED\<rparr>"

section \<open>Deck construction and validation\<close>

definition getDeck :: "Card list" where
  "getDeck =
     concat (map (\<lambda>s. map (\<lambda>x. \<lparr>suit = s, rank = x\<rparr>) [1..13]) [HEART, SPADE, CLUB, DIAMOND])"

text \<open>
  The inner loop of \<open>isValidDeck\<close> for one \<open>index\<close>, over the remaining values of
  \<open>jindex\<close>: \<open>Inr True\<close> when a duplicate of \<open>deck[index]\<close> is met, \<open>Inl TypeError\<close> when
  \<open>equals\<close> is called on a \<open>null\<close> element.
\<close>

fun duplicateScan :: "Card option list \<Rightarrow> nat \<Rightarrow> nat list \<Rightarrow> error + bool" where
  "duplicateScan deck index [] = Inr False"
| "duplicateScan deck index (jindex # js) =
     (if index \<noteq> jindex then
        (case deck ! index of
           None \<Rightarrow> Inl TypeError
         | Some c \<Rightarrow> if equals c (deck ! jindex) then Inr True
                     else duplicateScan deck index js)
      else duplicateScan deck index js)"

text \<open>The outer loop of \<open>isValidDeck\<close>: \<open>Inr False\<close> is the early \<open>return false\<close>.\<close>

fun deckScan :: "Card option list \<Rightarrow> nat list \<Rightarrow> error + bool" where
  "deckScan deck [] = Inr True"
| "deckScan deck (index # is) =
     (case duplicateScan deck index [0..<length deck] of
        Inl e \<Rightarrow> Inl e
      | Inr True \<Rightarrow> Inr False
      | Inr False \<Rightarrow> if deck ! index = None then Inr False else deckScan deck is)"

definition isValidDeck :: "Card option list \<Rightarrow> error + bool" where
  "isValidDeck deck =
     (case deckScan deck [0..<length deck] of
        Inl e \<Rightarrow> Inl e
      | Inr False \<Rightarrow> Inr False
      | Inr True \<Rightarrow> Inr (length deck = length getDeck))"

definition isEnoughCards :: "int \<Rightarrow> int \<Rightarrow> int \<Rightarrow> bool" where
  "isEnoughCards deckSize numRows numDraws =
     (let pyramidSize = (numRows * (numRows + 1)) div 2
      in pyramidSize + numDraws \<le> deckSize)"

section \<open>Dealing\<close>

text \<open>
  \<open>shuffle\<close> is the in-place Fisher-Yates loop. \<open>Math.random\<close> is a parameter: \<open>rnd k\<close> is
  the number whose remainder modulo \<open>k\<close> is \<open>Math.floor(Math.random() * currentIndex)\<close> in
  the iteration that starts with \<open>currentIndex = k\<close>.
\<close>

fun shuffleLoop :: "(nat \<Rightarrow> nat) \<Rightarrow> nat \<Rightarrow> 'a list \<Rightarrow> 'a list" where
  "shuffleLoop rnd 0 array = array"
| "shuffleLoop rnd (Suc currentIndex) array =
     (let randomIndex = rnd (Suc currentIndex) mod (Suc currentIndex);
          temporaryValue = array ! currentIndex;
          array1 = array[currentIndex := array ! randomIndex];
          array2 = array1[randomIndex := temporaryValue]
      in shuffleLoop rnd currentIndex array2)"

definition shuffle :: "(nat \<Rightarrow> nat) \<Rightarrow> 'a list \<Rightarrow> 'a list" where
  "shuffle rnd array = shuffleLoop rnd (length array) array"

text \<open>
  \<open>n\<close> rounds of \<open>target.push(deck[0]); deck.shift()\<close>: the cards pushed and the deck that
  is left. On an empty array \<open>deck[0]\<close> is \<open>undefined\<close> and \<open>shift\<close> does nothing.
\<close>

fun dealFront :: "nat \<Rightarrow> Card option list \<Rightarrow> Card option list \<times> Card option list" where
  "dealFront 0 deck = ([], deck)"
| "dealFront (Suc n) deck =
     (let c = (case deck of [] \<Rightarrow> None | x # _ \<Rightarrow> x);
          (cs, deck') = dealFront n (tl deck)
      in (c # cs, deck'))"

text \<open>
  The dealing loop of \<open>dealCards\<close> from row \<open>row\<close> on, for \<open>n\<close> more rows: row \<open>row\<close> takes
  \<open>row + 1\<close> cards.
\<close>

fun dealRows :: "nat \<Rightarrow> nat \<Rightarrow> Card option list \<Rightarrow> Card option list list \<times> Card option list" where
  "dealRows row 0 deck = ([], deck)"
| "dealRows row (Suc n) deck =
     (let (r, deck1) = dealFront (Suc row) deck;
          (rs, deck2) = dealRows (Suc row) n deck1
      in (r # rs, deck2))"

text \<open>
  \<open>dealCards\<close> changes the array it is given, so it returns the pyramid together with what
  is left of that array.
\<close>

definition dealCards ::
  "(nat \<Rightarrow> nat) \<Rightarrow> int \<Rightarrow> Card option list \<Rightarrow> bool \<Rightarrow> Card option list list \<times> Card option list" where
  "dealCards rnd numRows deck doShuffle =
     dealRows 0 (nat numRows) (if doShuffle then shuffle rnd deck else deck)"

text \<open>The \<open>forEach\<close> loop that copies the deck, one \<open>push\<close> per element.\<close>

definition copyDeck :: "Card option list \<Rightarrow> Card option list" where
  "copyDeck deck = foldl (\<lambda>deckCopy v. deckCopy @ [v]) [] deck"

text \<open>
  \<open>startGame\<close> returns its outcome, the engine after the call and the caller's deck array
  after the call. A thrown error leaves the engine where the throw happened.
\<close>

definition startGame ::
  "game \<Rightarrow> Card option list option \<Rightarrow> bool \<Rightarrow> (nat \<Rightarrow> nat) \<Rightarrow> int \<Rightarrow> int
     \<Rightarrow> (error + unit) \<times> game \<times> Card option list option" where
  "startGame g deckArg doShuffle rnd numRows numDraw =
     (case deckArg of
        None \<Rightarrow> (Inl InvalidDeck, g, deckArg)
      | Some deck \<Rightarrow>
         (case isValidDeck deck of
            Inl e \<Rightarrow> (Inl e, g, deckArg)
          | Inr False \<Rightarrow> (Inl InvalidDeck, g, deckArg)
          | Inr True \<Rightarrow>
             if \<not> isEnoughCards (int (length deck)) numRows numDraw
               then (Inl InsufficientCards, g, deckArg)
             else if numRows = 0 \<and> numDraw = 0 then (Inl InvalidLayout, g, deckArg)
             else if numRows \<le> 0 then (Inl InvalidLayout, g, deckArg)
             else if numDraw < 0 then (Inl InvalidLayout, g, deckArg)
             else
               (let deckCopy = copyDeck deck;
                    (p, deckCopy1) = dealCards rnd numRows deckCopy doShuffle;
                    (ds, deckCopy2) = dealFront (nat numDraw) deckCopy1
                in (Inr (),
                    \<lparr>pyramid = p, stock = deckCopy2, draws = ds, gamestate = STARTED\<rparr>,
                    Some deck))))"

section \<open>Bounds, lookup and coverage\<close>

definition checkStarted :: "game \<Rightarrow> error + unit" where
  "checkStarted g = (if gamestate g = NOT_STARTED then Inl NotStarted else Inr ())"

definition isRowInBounds :: "game \<Rightarrow> int \<Rightarrow> bool" where
  "isRowInBounds g row = (row < int (length (pyramid g)) \<and> row \<ge> 0)"

definition isCardInBounds :: "game \<Rightarrow> int \<Rightarrow> int \<Rightarrow> bool" where
  "isCardInBounds g row col =
     (isRowInBounds g row \<and> col < int (length (pyramid g ! nat row)) \<and> col \<ge> 0)"

definition getCardAt :: "game \<Rightarrow> int \<Rightarrow> int \<Rightarrow> error + Card option" where
  "getCardAt g row col =
     (case checkStarted g of
        Inl e \<Rightarrow> Inl e
      | Inr _ \<Rightarrow>
         if \<not> isRowInBounds g row then Inl OutOfBounds
         else if \<not> isCardInBounds g row col then Inl OutOfBounds
         else Inr (pyramid g ! nat row ! nat col))"

text \<open>
  \<open>isCovered\<close>: the second lookup of \<open>||\<close> is made only when the first slot beneath is
  empty.
\<close>

definition isCovered :: "game \<Rightarrow> int \<Rightarrow> int \<Rightarrow> error + bool" where
  "isCovered g row col =
     (if row \<ge> int (length (pyramid g)) \<or> row < 0 then Inl OutOfBounds
      else if col \<ge> int (length (pyramid g ! nat row)) \<or> col < 0 then Inl OutOfBounds
      else if row = int (length (pyramid g)) - 1 then Inr False
      else
        (case getCardAt g (row + 1) col of
           Inl e \<Rightarrow> Inl e
         | Inr (Some _) \<Rightarrow> Inr True
         | Inr None \<Rightarrow>
            (case getCardAt g (row + 1) (col + 1) of
               Inl e \<Rightarrow> Inl e
             | Inr below \<Rightarrow> Inr (below \<noteq> None))))"

text \<open>The assignment \<open>this.pyramid[row][card] = v\<close>, at indices already checked.\<close>

definition setSlot ::
  "Card option list list \<Rightarrow> int \<Rightarrow> int \<Rightarrow> Card option \<Rightarrow> Card option list list" where
  "setSlot p row col v = p[nat row := (p ! nat row)[nat col := v]]"

section \<open>Moves\<close>

text \<open>
  A move returns its outcome and the engine after the call: when it throws, the engine is
  left as it was at the throw.
\<close>

definition removeTwoChecks :: "game \<Rightarrow> int \<Rightarrow> int \<Rightarrow> int \<Rightarrow> int \<Rightarrow> error + unit" where
  "removeTwoChecks g row1 card1 row2 card2 =
     (case checkStarted g of
        Inl e \<Rightarrow> Inl e
      | Inr _ \<Rightarrow>
         if \<not> isRowInBounds g row1 \<or> \<not> isRowInBounds g row2 then Inl OutOfBounds
         else if \<not> isCardInBounds g row1 card1 \<or> \<not> isCardInBounds g row2 card2
           then Inl OutOfBounds
         else
           (case getCardAt g row1 card1 of
              Inl e \<Rightarrow> Inl e
            | Inr None \<Rightarrow> Inl EmptySlot
            | Inr (Some c1) \<Rightarrow>
               (case getCardAt g row2 card2 of
                  Inl e \<Rightarrow> Inl e
                | Inr None \<Rightarrow> Inl EmptySlot
                | Inr (Some c2) \<Rightarrow>
                   if getValue c1 + getValue c2 \<noteq> removalValue then Inl InvalidMove
                   else Inr ())))"

definition removeTwo :: "game \<Rightarrow> int \<Rightarrow> int \<Rightarrow> int \<Rightarrow> int \<Rightarrow> (error + unit) \<times> game" where
  "removeTwo g row1 card1 row2 card2 =
     (case removeTwoChecks g row1 card1 row2 card2 of
        Inl e \<Rightarrow> (Inl e, g)
      | Inr _ \<Rightarrow>
         (case isCovered g row1 card1 of
            Inl e \<Rightarrow> (Inl e, g)
          | Inr True \<Rightarrow> (Inl Covered, g)
          | Inr False \<Rightarrow>
             (case isCovered g row2 card2 of
                Inl e \<Rightarrow> (Inl e, g)
              | Inr True \<Rightarrow> (Inl Covered, g)
              | Inr False \<Rightarrow>
                 (let g1 = g\<lparr>pyramid := setSlot (pyramid g) row1 card1 None\<rparr>;
                      g2 = g1\<lparr>pyramid := setSlot (pyramid g1) row2 card2 None\<rparr>
                  in (Inr (), g2)))))"

text \<open>The method \<open>remove\<close> of the engine.\<close>

definition removeCard :: "game \<Rightarrow> int \<Rightarrow> int \<Rightarrow> (error + unit) \<times> game" where
  "removeCard g row col =
     (case checkStarted g of
        Inl e \<Rightarrow> (Inl e, g)
      | Inr _ \<Rightarrow>
         if \<not> isRowInBounds g row then (Inl OutOfBounds, g)
         else if \<not> isCardInBounds g row col then (Inl OutOfBounds, g)
         else
           (case getCardAt g row col of
              Inl e \<Rightarrow> (Inl e, g)
            | Inr None \<Rightarrow> (Inl EmptySlot, g)
            | Inr (Some c) \<Rightarrow>
               if getValue c \<noteq> removalValue then (Inl InvalidMove, g)
               else
                 (case isCovered g row col of
                    Inl e \<Rightarrow> (Inl e, g)
                  | Inr True \<Rightarrow> (Inl Covered, g)
                  | Inr False \<Rightarrow>
                     (Inr (), g\<lparr>pyramid := setSlot (pyramid g) row col None\<rparr>))))"

definition discardDraw :: "game \<Rightarrow> int \<Rightarrow> (error + unit) \<times> game" where
  "discardDraw g drawIndex =
     (case checkStarted g of
        Inl e \<Rightarrow> (Inl e, g)
      | Inr _ \<Rightarrow>
         if drawIndex < 0 \<or> drawIndex \<ge> int (length (draws g)) then (Inl OutOfBounds, g)
         else if draws g ! nat drawIndex = None then (Inl EmptySlot, g)
         else if length (stock g) > 0
           then (Inr (), g\<lparr>draws := (draws g)[nat drawIndex := hd (stock g)],
                            stock := tl (stock g)\<rparr>)
         else (Inr (), g\<lparr>draws := (draws g)[nat drawIndex := None]\<rparr>))"

text \<open>
  \<open>removeUsingDraw\<close> clears the pyramid slot and then calls \<open>discardDraw\<close> on the engine so
  changed; an error of that call would leave the slot cleared.
\<close>

definition removeUsingDraw :: "game \<Rightarrow> int \<Rightarrow> int \<Rightarrow> int \<Rightarrow> (error + unit) \<times> game" where
  "removeUsingDraw g drawIndex row col =
     (case checkStarted g of
        Inl e \<Rightarrow> (Inl e, g)
      | Inr _ \<Rightarrow>
         if \<not> isRowInBounds g row then (Inl OutOfBounds, g)
         else if \<not> isCardInBounds g row col then (Inl OutOfBounds, g)
         else if drawIndex \<ge> int (length (draws g)) \<or> drawIndex < 0 then (Inl OutOfBounds, g)
         else
           (case getCardAt g row col of
              Inl e \<Rightarrow> (Inl e, g)
            | Inr None \<Rightarrow> (Inl EmptySlot, g)
            | Inr (Some c) \<Rightarrow>
               (case draws g ! nat drawIndex of
                  None \<Rightarrow> (Inl EmptySlot, g)
                | Some d \<Rightarrow>
                   if getValue c + getValue d \<noteq> removalValue then (Inl InvalidMove, g)
                   else
                     (case isCovered g row col of
                        Inl e \<Rightarrow> (Inl e, g)
                      | Inr True \<Rightarrow> (Inl Covered, g)
                      | Inr False \<Rightarrow>
                         discardDraw (g\<lparr>pyramid := setSlot (pyramid g) row col None\<rparr>)
                           drawIndex))))"

section \<open>Queries\<close>

text \<open>
  \<open>getNumRows\<close> and \<open>getNumDraw\<close> test the lifecycle flag themselves and throw nothing:
  before the start they return \<open>-1\<close>. They have the result type of the other queries, and
  their result is always an \<open>Inr\<close>.
\<close>

definition getNumRows :: "game \<Rightarrow> error + int" where
  "getNumRows g =
     (if gamestate g = NOT_STARTED then Inr (- 1) else Inr (int (length (pyramid g))))"

definition getNumDraw :: "game \<Rightarrow> error + int" where
  "getNumDraw g =
     (if gamestate g = NOT_STARTED then Inr (- 1) else Inr (int (length (draws g))))"

definition getRowWidth :: "game \<Rightarrow> int \<Rightarrow> error + int" where
  "getRowWidth g row =
     (case checkStarted g of
        Inl e \<Rightarrow> Inl e
      | Inr _ \<Rightarrow>
         if \<not> isRowInBounds g row then Inl OutOfBounds
         else Inr (int (length (pyramid g ! nat row))))"

definition getDrawCards :: "game \<Rightarrow> error + Card option list" where
  "getDrawCards g =
     (case checkStarted g of
        Inl e \<Rightarrow> Inl e
      | Inr _ \<Rightarrow> Inr (foldl (\<lambda>drawsCopy c. drawsCopy @ [c]) [] (draws g)))"

text \<open>
  \<open>Array.prototype.forEach\<close> with a callback that has no effect of its own: the callback
  runs on every element and whatever it returns is dropped; \<open>forEach\<close> itself returns
  nothing.
\<close>

definition forEach :: "'a list \<Rightarrow> ('a \<Rightarrow> 'r) \<Rightarrow> unit" where
  "forEach xs callback = (case map callback xs of _ \<Rightarrow> ())"

text \<open>
  \<open>isGameWon\<close>: the inner callback returns \<open>false\<close> on a card and nothing otherwise
  (\<open>Some False\<close> and \<open>None\<close>); the statement after the iteration is \<open>return true\<close>.
\<close>

definition isGameWon :: "game \<Rightarrow> bool" where
  "isGameWon g =
     (case forEach (pyramid g)
             (\<lambda>row. forEach row (\<lambda>c. if c \<noteq> None then Some False else None)) of
        () \<Rightarrow> True)"

definition allDiscarded :: "game \<Rightarrow> bool" where
  "allDiscarded g =
     (case forEach (draws g) (\<lambda>c. if c \<noteq> None then Some False else None) of
        () \<Rightarrow> True)"

text \<open>
  The iteration of \<open>getUncovered\<close> over the positions still to visit, in row-major order, with
  the array \<open>uncovered\<close> built so far.
\<close>

fun uncoveredLoop :: "game \<Rightarrow> (nat \<times> nat) list \<Rightarrow> Card list \<Rightarrow> error + Card list" where
  "uncoveredLoop g [] uncovered = Inr uncovered"
| "uncoveredLoop g ((row, col) # ps) uncovered =
     (case getCardAt g (int row) (int col) of
        Inl e \<Rightarrow> Inl e
      | Inr None \<Rightarrow> uncoveredLoop g ps uncovered
      | Inr (Some c) \<Rightarrow>
         (case isCovered g (int row) (int col) of
            Inl e \<Rightarrow> Inl e
          | Inr True \<Rightarrow> uncoveredLoop g ps uncovered
          | Inr False \<Rightarrow> uncoveredLoop g ps (uncovered @ [c])))"

definition getUncovered :: "game \<Rightarrow> error + Card list" where
  "getUncovered g =
     uncoveredLoop g
       (concat (map (\<lambda>row. map (\<lambda>col. (row, col)) [0..<length (pyramid g ! row)])
                  [0..<length (pyramid g)]))
       []"

definition canBeRemoved :: "Card list \<Rightarrow> bool" where
  "canBeRemoved cards =
     list_ex (\<lambda>index. getValue (cards ! index) = removalValue) [0..<length cards]"

definition canAddToRemovalValue :: "Card list \<Rightarrow> bool" where
  "canAddToRemovalValue cards =
     list_ex (\<lambda>card1.
        list_ex (\<lambda>card2.
           card1 \<noteq> card2 \<and> getValue (cards ! card1) + getValue (cards ! card2) = removalValue)
          [0..<length cards])
       [0..<length cards]"

text \<open>
  \<open>isGameOver\<close>. The \<open>forEach\<close> over the draw pile has a callback whose \<open>return false\<close>
  is dropped, so that loop decides nothing.
\<close>

definition isGameOver :: "game \<Rightarrow> error + bool" where
  "isGameOver g =
     (case checkStarted g of
        Inl e \<Rightarrow> Inl e
      | Inr _ \<Rightarrow>
         if isGameWon g then Inr True
         else
           (case forEach (draws g) (\<lambda>c. if c \<noteq> None then Some False else None) of
              () \<Rightarrow>
               (case getUncovered g of
                  Inl e \<Rightarrow> Inl e
                | Inr uncovered \<Rightarrow>
                   if canBeRemoved uncovered then Inr False
                   else if canAddToRemovalValue uncovered then Inr False
                   else
                     (case getNumDraw g of
                        Inl e \<Rightarrow> Inl e
                      | Inr n \<Rightarrow> Inr (\<not> (n > 0 \<and> length (stock g) > 0))))))"

text \<open>
  \<open>getScore\<close>. Here the callbacks do have an effect, on the local \<open>result\<close>, so the two
  iterations are folds over it.
\<close>

definition getScore :: "game \<Rightarrow> error + int" where
  "getScore g =
     (case checkStarted g of
        Inl e \<Rightarrow> Inl e
      | Inr _ \<Rightarrow>
         if isGameWon g then Inr 0
         else
           Inr (foldl (\<lambda>result row.
                   foldl (\<lambda>result c. case c of None \<Rightarrow> result | Some k \<Rightarrow> result + getValue k)
                     result row)
                 0 (pyramid g)))"

section \<open>Games, shapes and counts used in the statements\<close>

text \<open>
  The game that \<open>App.tsx\<close> starts: \<open>playGame(model.getDeck(), false, 7, 3)\<close> on a fresh
  engine, which calls \<open>startGame\<close> with the same arguments. No shuffle is made, so the
  random source is never consulted.
\<close>

definition appGame :: game where
  "appGame = fst (snd (startGame newGame (Some (map Some getDeck)) False (\<lambda>_. 0) 7 3))"

text \<open>The shape of a dealt pyramid: row \<open>r\<close> has \<open>r + 1\<close> slots.\<close>

definition triangular :: "Card option list list \<Rightarrow> bool" where
  "triangular p = (map length p = map Suc [0..<length p])"

text \<open>The number of slots of an array that hold a card, and the cards an engine holds.\<close>

definition countNonEmpty :: "Card option list \<Rightarrow> nat" where
  "countNonEmpty xs = length (filter (\<lambda>c. c \<noteq> None) xs)"

definition cardsInPlay :: "game \<Rightarrow> nat" where
  "cardsInPlay g =
     sum_list (map countNonEmpty (pyramid g)) + countNonEmpty (draws g) + length (stock g)"

text \<open>The four moves as data, and a sequence of moves that all succeed.\<close>

datatype move =
    Remove int int
  | RemoveTwo int int int int
  | RemoveUsingDraw int int int
  | DiscardDraw int

fun applyMove :: "game \<Rightarrow> move \<Rightarrow> (error + unit) \<times> game" where
  "applyMove g (Remove row col) = removeCard g row col"
| "applyMove g (RemoveTwo row1 card1 row2 card2) = removeTwo g row1 card1 row2 card2"
| "applyMove g (RemoveUsingDraw drawIndex row col) = removeUsingDraw g drawIndex row col"
| "applyMove g (DiscardDraw drawIndex) = discardDraw g drawIndex"

fun runMoves :: "game \<Rightarrow> move list \<Rightarrow> game option" where
  "runMoves g [] = Some g"
| "runMoves g (m # ms) =
     (case applyMove g m of
        (Inl e, _) \<Rightarrow> None
      | (Inr _, g') \<Rightarrow> runMoves g' ms)"

text \<open>
  The removed-card count in the words of the specification: a move counts for the pyramid
  slots it clears, a discard for nothing.
\<close>

fun spec_removedCount :: "move \<Rightarrow> nat" where
  "spec_removedCount (Remove row col) = 1"
| "spec_removedCount (RemoveTwo row1 card1 row2 card2) = 2"
| "spec_removedCount (RemoveUsingDraw drawIndex row col) = 1"
| "spec_removedCount (DiscardDraw drawIndex) = 0"

text \<open>
  The cards a successful move takes out of the game: the pyramid cards it clears and the
  draw card it discards.
\<close>

fun cardsTakenOut :: "move \<Rightarrow> nat" where
  "cardsTakenOut (Remove row col) = 1"
| "cardsTakenOut (RemoveTwo row1 card1 row2 card2) = 2"
| "cardsTakenOut (RemoveUsingDraw drawIndex row col) = 2"
| "cardsTakenOut (DiscardDraw drawIndex) = 1"

text \<open>The size of \<open>n\<close> pyramid rows starting with row \<open>row\<close>.\<close>

fun rowsSize :: "nat \<Rightarrow> nat \<Rightarrow> nat" where
  "rowsSize row 0 = 0"
| "rowsSize row (Suc n) = Suc row + rowsSize (Suc row) n"

section \<open>Auxiliary facts\<close>

subsection \<open>Lifecycle flag, lookup and coverage\<close>

text \<open>
  On a started game an in-bounds lookup returns the slot, and on a pyramid of the dealt
  shape \<open>isCovered\<close> looks at the two slots beneath and never fails.
\<close>

lemma started_iff: "(s \<noteq> NOT_STARTED) = (s = STARTED)"
  by (cases s) simp_all

lemma triangular_row: "triangular p \<Longrightarrow> r < length p \<Longrightarrow> length (p ! r) = Suc r"
proof -
  assume t: "triangular p" and r: "r < length p"
  have "length (p ! r) = map length p ! r" using r by simp
  also have "\<dots> = map Suc [0..<length p] ! r" using t by (simp add: triangular_def)
  also have "\<dots> = Suc r" using r by simp
  finally show ?thesis .
qed

lemma getCardAt_in_bounds:
  "gamestate g = STARTED \<Longrightarrow> 0 \<le> row \<Longrightarrow> row < int (length (pyramid g)) \<Longrightarrow> 0 \<le> col
   \<Longrightarrow> col < int (length (pyramid g ! nat row))
   \<Longrightarrow> getCardAt g row col = Inr (pyramid g ! nat row ! nat col)"
  by (simp add: getCardAt_def checkStarted_def isRowInBounds_def isCardInBounds_def)

lemma isCovered_triangular:
  assumes "gamestate g = STARTED" "triangular (pyramid g)"
    "0 \<le> row" "row < int (length (pyramid g))" "0 \<le> col" "col \<le> row"
  shows "isCovered g row col =
     Inr (row \<noteq> int (length (pyramid g)) - 1 \<and>
          (pyramid g ! nat (row + 1) ! nat col \<noteq> None \<or>
           pyramid g ! nat (row + 1) ! nat (col + 1) \<noteq> None))"
proof (cases "row = int (length (pyramid g)) - 1")
  case True
  have "length (pyramid g ! nat row) = Suc (nat row)"
    using assms by (intro triangular_row) auto
  then show ?thesis using True assms by (simp add: isCovered_def)
next
  case False
  have l0: "length (pyramid g ! nat row) = Suc (nat row)"
    using assms by (intro triangular_row) auto
  have l1: "length (pyramid g ! nat (row + 1)) = Suc (nat (row + 1))"
    using assms False by (intro triangular_row) auto
  have a: "getCardAt g (row + 1) col = Inr (pyramid g ! nat (row + 1) ! nat col)"
    using assms False l1 by (intro getCardAt_in_bounds) auto
  have b: "getCardAt g (row + 1) (col + 1) = Inr (pyramid g ! nat (row + 1) ! nat (col + 1))"
    using assms False l1 by (intro getCardAt_in_bounds) auto
  show ?thesis using False assms l0 a b
    by (auto simp add: isCovered_def split: option.splits)
qed

subsection \<open>The deck check\<close>

text \<open>
  \<open>isValidDeck\<close> answers \<open>true\<close> exactly on the arrays of 52 different cards without a
  \<open>null\<close> element.
\<close>

lemma getDeck_length: "length getDeck = 52"
  by code_simp

lemma equals_iff: "equals c d \<longleftrightarrow> d = Some c"
  by (cases d) auto

lemma duplicateScan_card:
  "deck ! i = Some c \<Longrightarrow>
     duplicateScan deck i js = Inr (\<exists>j\<in>set js. j \<noteq> i \<and> deck ! j = Some c)"
  by (induction js) (auto simp add: equals_iff)

lemma duplicateScan_null:
  "deck ! i = None \<Longrightarrow>
     duplicateScan deck i js = (if \<exists>j\<in>set js. j \<noteq> i then Inl TypeError else Inr False)"
  by (induction js) auto

lemma duplicateScan_False:
  "duplicateScan deck i [0..<length deck] = Inr False \<and> deck ! i \<noteq> None
     \<longleftrightarrow> deck ! i \<noteq> None \<and> (\<forall>j<length deck. j \<noteq> i \<longrightarrow> deck ! j \<noteq> deck ! i)"
proof (cases "deck ! i")
  case None
  then show ?thesis by simp
next
  case (Some c)
  then show ?thesis by (auto simp add: duplicateScan_card)
qed

lemma deckScan_True:
  "deckScan deck is = Inr True \<longleftrightarrow>
     (\<forall>i\<in>set is. deck ! i \<noteq> None \<and> (\<forall>j<length deck. j \<noteq> i \<longrightarrow> deck ! j \<noteq> deck ! i))"
proof (induction "is")
  case Nil
  then show ?case by simp
next
  case (Cons i "is")
  have "deckScan deck (i # is) = Inr True \<longleftrightarrow>
      (duplicateScan deck i [0..<length deck] = Inr False \<and> deck ! i \<noteq> None) \<and>
      deckScan deck is = Inr True"
    by (auto split: sum.splits bool.splits)
  then show ?case using Cons.IH duplicateScan_False [of deck i] by auto
qed

lemma deckScan_no_null:
  "None \<notin> set deck \<Longrightarrow> set is \<subseteq> {..<length deck} \<Longrightarrow> \<not> isl (deckScan deck is)"
proof (induction "is")
  case Nil
  then show ?case by simp
next
  case (Cons i "is")
  then have "i < length deck" by simp
  then have "deck ! i \<in> set deck" by simp
  with Cons.prems obtain c where c: "deck ! i = Some c" by (cases "deck ! i") auto
  show ?case using Cons c by (simp add: duplicateScan_card split: bool.splits)
qed

lemma isValidDeck_True:
  "isValidDeck deck = Inr True \<longleftrightarrow> None \<notin> set deck \<and> distinct deck \<and> length deck = 52"
proof -
  have "isValidDeck deck = Inr True \<longleftrightarrow>
      deckScan deck [0..<length deck] = Inr True \<and> length deck = 52"
    by (auto simp add: isValidDeck_def getDeck_length split: sum.splits bool.splits)
  also have "deckScan deck [0..<length deck] = Inr True \<longleftrightarrow> None \<notin> set deck \<and> distinct deck"
    unfolding deckScan_True by (auto simp add: distinct_conv_nth in_set_conv_nth)
  finally show ?thesis by blast
qed

lemma isValidDeck_no_null:
  assumes "None \<notin> set deck"
  shows "isValidDeck deck = Inr (distinct deck \<and> length deck = 52)"
proof -
  have "set [0..<length deck] \<subseteq> {..<length deck}" by auto
  from deckScan_no_null [OF assms this]
  have "\<not> isl (isValidDeck deck)"
    by (auto simp add: isValidDeck_def split: sum.splits bool.splits)
  then obtain b where b: "isValidDeck deck = Inr b"
    by (cases "isValidDeck deck") auto
  show ?thesis
  proof (cases b)
    case True
    then show ?thesis using b isValidDeck_True [of deck] by simp
  next
    case False
    then have "\<not> (distinct deck \<and> length deck = 52)"
      using b isValidDeck_True [of deck] assms by auto
    then show ?thesis using b False by simp
  qed
qed

lemma getDeck_valid: "isValidDeck (map Some getDeck) = Inr True"
  by code_simp

subsection \<open>Dealing\<close>

text \<open>
  As long as the deck holds enough cards, dealing takes them from the front in order; the
  shuffle permutes the deck.
\<close>

lemma copy_loop: "foldl (\<lambda>deckCopy v. deckCopy @ [v]) acc xs = acc @ xs"
  by (induction xs arbitrary: acc) simp_all

lemma copyDeck_same: "copyDeck deck = deck"
  by (simp add: copyDeck_def copy_loop)

lemma dealFront_take:
  "n \<le> length deck \<Longrightarrow> dealFront n deck = (take n deck, drop n deck)"
proof (induction n arbitrary: deck)
  case 0
  then show ?case by simp
next
  case (Suc n)
  then obtain x xs where d: "deck = x # xs" by (cases deck) auto
  with Suc show ?case by simp
qed

lemma dealFront_length: "length (fst (dealFront n deck)) = n"
  by (induction n arbitrary: deck) (simp_all add: split_beta Let_def)

lemma dealRows_shape: "map length (fst (dealRows row n deck)) = map Suc [row..<row + n]"
proof (induction n arbitrary: row deck)
  case 0
  then show ?case by simp
next
  case (Suc n)
  have "length (fst (dealFront (Suc row) deck)) = Suc row" by (rule dealFront_length)
  moreover have "[row..<row + Suc n] = row # [Suc row..<Suc row + n]"
    by (simp add: upt_conv_Cons)
  ultimately show ?case using Suc.IH [of "Suc row" "snd (dealFront (Suc row) deck)"]
    by (simp add: split_beta Let_def del: dealFront.simps upt_Suc)
qed

lemma dealRows_take:
  "rowsSize row n \<le> length deck \<Longrightarrow>
     concat (fst (dealRows row n deck)) = take (rowsSize row n) deck \<and>
     snd (dealRows row n deck) = drop (rowsSize row n) deck"
proof (induction n arbitrary: row deck)
  case 0
  then show ?case by simp
next
  case (Suc n)
  have f: "dealFront (Suc row) deck = (take (Suc row) deck, drop (Suc row) deck)"
    using Suc.prems by (intro dealFront_take) simp
  have "rowsSize (Suc row) n \<le> length (drop (Suc row) deck)"
    using Suc.prems by simp
  from Suc.IH [OF this] show ?case
    using f take_add [of "Suc row" "rowsSize (Suc row) n" deck]
    by (simp add: split_beta add.commute del: dealFront.simps)
qed

lemma rowsSize_double: "2 * rowsSize row n = 2 * n * row + n * (n + 1)"
  by (induction n arbitrary: row) (simp_all add: algebra_simps)

lemma rowsSize_int:
  assumes "0 \<le> r"
  shows "int (rowsSize 0 (nat r)) = (r * (r + 1)) div 2"
proof -
  have "2 * rowsSize 0 (nat r) = nat r * (nat r + 1)"
    using rowsSize_double [of 0 "nat r"] by simp
  then have "2 * int (rowsSize 0 (nat r)) = int (nat r * (nat r + 1))"
    by (metis of_nat_mult of_nat_numeral)
  also have "\<dots> = r * (r + 1)" using assms by (simp add: nat_add_distrib algebra_simps)
  finally show ?thesis by simp
qed

lemma shuffleLoop_mset:
  "k \<le> length array \<Longrightarrow> mset (shuffleLoop rnd k array) = mset array"
proof (induction k arbitrary: array)
  case 0
  then show ?case by simp
next
  case (Suc k)
  let ?r = "rnd (Suc k) mod Suc k"
  have r: "?r < length array" using Suc.prems
    by (meson Suc_le_lessD less_Suc_eq_le mod_less_divisor order_le_less_trans zero_less_Suc)
  have k: "k < length array" using Suc.prems by simp
  have "mset (array[k := array ! ?r, ?r := array ! k]) = mset array"
    using mset_swap [OF r k] by simp
  then show ?case using Suc.IH [of "array[k := array ! ?r, ?r := array ! k]"] k
    by (simp add: Let_def)
qed

lemma shuffle_mset: "mset (shuffle rnd array) = mset array"
  by (simp add: shuffle_def shuffleLoop_mset)

lemma shuffle_length: "length (shuffle rnd array) = length array"
  by (metis shuffle_mset size_mset)

lemma shuffle_set: "set (shuffle rnd array) = set array"
  by (metis shuffle_mset set_mset_mset)

lemma first_nine:
  assumes "9 \<le> length deck"
  shows "deck ! 0 # deck ! 1 # deck ! 2 # deck ! 3 # deck ! 4 # deck ! 5 # deck ! 6 # deck ! 7 #
         deck ! 8 # drop 9 deck = deck"
proof -
  have "deck ! 8 # drop 9 deck = drop 8 deck"
    using Cons_nth_drop_Suc [of 8 deck] assms by simp
  moreover have "deck ! 7 # drop 8 deck = drop 7 deck"
    using Cons_nth_drop_Suc [of 7 deck] assms by simp
  moreover have "deck ! 6 # drop 7 deck = drop 6 deck"
    using Cons_nth_drop_Suc [of 6 deck] assms by simp
  moreover have "deck ! 5 # drop 6 deck = drop 5 deck"
    using Cons_nth_drop_Suc [of 5 deck] assms by simp
  moreover have "deck ! 4 # drop 5 deck = drop 4 deck"
    using Cons_nth_drop_Suc [of 4 deck] assms by simp
  moreover have "deck ! 3 # drop 4 deck = drop 3 deck"
    using Cons_nth_drop_Suc [of 3 deck] assms by simp
  moreover have "deck ! 2 # drop 3 deck = drop 2 deck"
    using Cons_nth_drop_Suc [of 2 deck] assms by simp
  moreover have "deck ! 1 # drop 2 deck = drop 1 deck"
    using Cons_nth_drop_Suc [of 1 deck] assms by (simp add: numeral_2_eq_2)
  moreover have "deck ! 0 # drop 1 deck = deck"
  proof -
    have "0 < length deck" using assms by (cases deck) simp_all
    from Cons_nth_drop_Suc [OF this] show ?thesis by simp
  qed
  ultimately show ?thesis by simp
qed

lemma startGame_3_3_explicit:
  assumes "isValidDeck (d0 # d1 # d2 # d3 # d4 # d5 # d6 # d7 # d8 # rest) = Inr True"
  shows "startGame g (Some (d0 # d1 # d2 # d3 # d4 # d5 # d6 # d7 # d8 # rest)) False rnd 3 3 =
     (Inr (),
      \<lparr>pyramid = [[d0], [d1, d2], [d3, d4, d5]], stock = rest, draws = [d6, d7, d8],
         gamestate = STARTED\<rparr>,
      Some (d0 # d1 # d2 # d3 # d4 # d5 # d6 # d7 # d8 # rest))"
proof -
  have "length (d0 # d1 # d2 # d3 # d4 # d5 # d6 # d7 # d8 # rest) = 52"
    using assms isValidDeck_True by blast
  then have l: "length rest = 43" by simp
  show ?thesis
    by (simp add: startGame_def assms isEnoughCards_def copyDeck_same dealCards_def l
        eval_nat_numeral)
qed

lemma startGame_success:
  assumes "startGame g (Some deck) doShuffle rnd numRows numDraw = (Inr (), g1, deck')"
  shows "isValidDeck deck = Inr True" "0 < numRows" "0 \<le> numDraw"
    "(numRows * (numRows + 1)) div 2 + numDraw \<le> 52"
    "g1 = \<lparr>pyramid = fst (dealCards rnd numRows deck doShuffle),
            stock = snd (dealFront (nat numDraw) (snd (dealCards rnd numRows deck doShuffle))),
            draws = fst (dealFront (nat numDraw) (snd (dealCards rnd numRows deck doShuffle))),
            gamestate = STARTED\<rparr>"
    "deck' = Some deck"
proof -
  show v: "isValidDeck deck = Inr True"
    using assms by (auto simp add: startGame_def split: sum.splits bool.splits)
  then have l: "length deck = 52" using isValidDeck_True by blast
  show "0 < numRows" "0 \<le> numDraw" "(numRows * (numRows + 1)) div 2 + numDraw \<le> 52"
    using assms v l by (auto simp add: startGame_def isEnoughCards_def split: if_splits)
  show "g1 = \<lparr>pyramid = fst (dealCards rnd numRows deck doShuffle),
            stock = snd (dealFront (nat numDraw) (snd (dealCards rnd numRows deck doShuffle))),
            draws = fst (dealFront (nat numDraw) (snd (dealCards rnd numRows deck doShuffle))),
            gamestate = STARTED\<rparr>"
    "deck' = Some deck"
    using assms v
    by (auto simp add: startGame_def copyDeck_same Let_def split_beta split: if_splits)
qed

subsection \<open>Counting cards\<close>

text \<open>
  Clearing a slot that holds a card lowers the count by one; right after a successful
  \<open>startGame\<close> all 52 cards are in play, the pyramid has the dealt shape and the stock holds
  no \<open>null\<close>.
\<close>

lemma countNonEmpty_Nil: "countNonEmpty [] = 0"
  by (simp add: countNonEmpty_def)

lemma countNonEmpty_Cons:
  "countNonEmpty (x # xs) = (if x = None then 0 else 1) + countNonEmpty xs"
  by (cases x) (simp_all add: countNonEmpty_def)

lemma countNonEmpty_append: "countNonEmpty (xs @ ys) = countNonEmpty xs + countNonEmpty ys"
  by (simp add: countNonEmpty_def)

lemma countNonEmpty_full: "None \<notin> set xs \<Longrightarrow> countNonEmpty xs = length xs"
proof (induction xs)
  case Nil
  then show ?case by (simp add: countNonEmpty_Nil)
next
  case (Cons a xs)
  then have "a \<noteq> None" by (cases a) auto
  with Cons show ?case by (simp add: countNonEmpty_Cons)
qed

lemma countNonEmpty_concat:
  "sum_list (map countNonEmpty rs) = countNonEmpty (concat rs)"
  by (induction rs) (simp_all add: countNonEmpty_Nil countNonEmpty_append)

lemma countNonEmpty_update:
  "i < length xs \<Longrightarrow>
     countNonEmpty (xs[i := v]) + (if xs ! i = None then 0 else 1)
       = countNonEmpty xs + (if v = None then 0 else 1)"
proof (induction xs arbitrary: i)
  case Nil
  then show ?case by simp
next
  case (Cons x xs)
  show ?case
  proof (cases i)
    case 0
    then show ?thesis by (simp add: countNonEmpty_Cons)
  next
    case (Suc j)
    then have "j < length xs" using Cons.prems by simp
    from Cons.IH [OF this, of ] show ?thesis using Suc by (simp add: countNonEmpty_Cons)
  qed
qed

lemma sum_list_map_update:
  "r < length p \<Longrightarrow>
     sum_list (map f (p[r := x])) + f (p ! r) = sum_list (map f p) + (f x :: nat)"
proof (induction p arbitrary: r)
  case Nil
  then show ?case by simp
next
  case (Cons y p)
  show ?case
  proof (cases r)
    case 0
    then show ?thesis by simp
  next
    case (Suc j)
    then have "j < length p" using Cons.prems by simp
    from Cons.IH [OF this] show ?thesis using Suc by simp
  qed
qed

lemma setSlot_clear_count:
  assumes "0 \<le> row" "nat row < length p" "0 \<le> col" "nat col < length (p ! nat row)"
    "p ! nat row ! nat col \<noteq> None"
  shows "Suc (sum_list (map countNonEmpty (setSlot p row col None)))
           = sum_list (map countNonEmpty p)"
proof -
  have "countNonEmpty ((p ! nat row)[nat col := None]) + 1 = countNonEmpty (p ! nat row)"
    using countNonEmpty_update [OF assms(4), of None] assms(5) by simp
  moreover have "sum_list (map countNonEmpty (p[nat row := (p ! nat row)[nat col := None]]))
        + countNonEmpty (p ! nat row)
      = sum_list (map countNonEmpty p) + countNonEmpty ((p ! nat row)[nat col := None])"
    by (rule sum_list_map_update [OF assms(2)])
  ultimately show ?thesis by (simp add: setSlot_def)
qed

lemma startGame_deals_all:
  assumes "startGame g (Some deck) doShuffle rnd numRows numDraw = (Inr (), g1, deck')"
  shows "cardsInPlay g1 = 52" "None \<notin> set (stock g1)" "length deck = 52"
    "triangular (pyramid g1)" "gamestate g1 = STARTED"
proof -
  note s = startGame_success [OF assms]
  define d where "d = (if doShuffle then shuffle rnd deck else deck)"
  define t where "t = rowsSize 0 (nat numRows)"
  have v: "None \<notin> set deck" "length deck = 52" using s(1) isValidDeck_True by blast+
  show "length deck = 52" by (rule v)
  have dl: "length d = 52" and dn: "None \<notin> set d"
    using v by (simp_all add: d_def shuffle_length shuffle_set)
  have "int t = (numRows * (numRows + 1)) div 2"
    unfolding t_def using s(2) by (intro rowsSize_int) simp
  then have room: "t + nat numDraw \<le> 52" using s(3) s(4) by linarith
  then have tl: "t \<le> length d" using dl by simp
  have rows: "concat (fst (dealRows 0 (nat numRows) d)) = take t d"
    "snd (dealRows 0 (nat numRows) d) = drop t d"
    using dealRows_take [of 0 "nat numRows" d] tl by (simp_all add: t_def)
  have "nat numDraw \<le> length (drop t d)" using room dl by simp
  then have dr: "dealFront (nat numDraw) (drop t d)
      = (take (nat numDraw) (drop t d), drop (nat numDraw) (drop t d))"
    by (rule dealFront_take)
  have g1: "pyramid g1 = fst (dealRows 0 (nat numRows) d)"
    "draws g1 = take (nat numDraw) (drop t d)"
    "stock g1 = drop (nat numDraw) (drop t d)"
    "gamestate g1 = STARTED"
    using s(5) rows dr by (simp_all add: dealCards_def d_def)
  show "gamestate g1 = STARTED" by (rule g1)
  show "None \<notin> set (stock g1)"
    using dn g1(3) by (metis in_set_dropD)
  have "sum_list (map countNonEmpty (pyramid g1)) = countNonEmpty (take t d)"
    using g1(1) rows(1) by (simp add: countNonEmpty_concat)
  also have "\<dots> = t"
    using dn tl by (subst countNonEmpty_full) (auto dest: in_set_takeD)
  finally have a: "sum_list (map countNonEmpty (pyramid g1)) = t" .
  have "countNonEmpty (draws g1) = length (draws g1)"
    using dn g1(2) by (intro countNonEmpty_full) (auto dest: in_set_takeD in_set_dropD)
  then have b: "countNonEmpty (draws g1) = nat numDraw"
    using g1(2) room dl by simp
  have c: "length (stock g1) = 52 - t - nat numDraw"
    using g1(3) dl by simp
  show "cardsInPlay g1 = 52" using a b c room by (simp add: cardsInPlay_def)
  have "map length (pyramid g1) = map Suc [0..<nat numRows]"
    using g1(1) dealRows_shape [of 0 "nat numRows" d] by simp
  moreover from this have "length (pyramid g1) = nat numRows"
    by (metis length_map length_upt minus_nat.diff_0)
  ultimately show "triangular (pyramid g1)" by (simp add: triangular_def)
qed

subsection \<open>What a successful move does\<close>

text \<open>
  The preconditions a successful move has passed, its effect on the number of cards in
  play, and the invariance of the pyramid's shape.
\<close>

lemma removeTwoChecks_values:
  assumes "removeTwoChecks g row1 card1 row2 card2 = Inr ()"
  shows "\<exists>c1 c2. pyramid g ! nat row1 ! nat card1 = Some c1 \<and>
                 pyramid g ! nat row2 ! nat card2 = Some c2 \<and>
                 rank c1 + rank c2 = 13 \<and> gamestate g = STARTED \<and>
                 isCardInBounds g row1 card1 \<and> isCardInBounds g row2 card2"
  using assms
  by (auto simp add: removeTwoChecks_def getCardAt_def checkStarted_def getValue_def
      removalValue_def started_iff split: if_splits option.splits sum.splits)

lemma discardDraw_started:
  "gamestate g = STARTED \<Longrightarrow> gamestate (snd (discardDraw g i)) = STARTED"
  by (simp add: discardDraw_def split: sum.splits)

lemma discardDraw_ok:
  "gamestate g = STARTED \<Longrightarrow> 0 \<le> i \<Longrightarrow> i < int (length (draws g)) \<Longrightarrow> draws g ! nat i \<noteq> None
   \<Longrightarrow> fst (discardDraw g i) = Inr ()"
  by (simp add: discardDraw_def checkStarted_def)

lemma removeCard_success:
  assumes "fst (removeCard g row col) = Inr ()"
  shows "snd (removeCard g row col) = g\<lparr>pyramid := setSlot (pyramid g) row col None\<rparr>"
    "0 \<le> row" "nat row < length (pyramid g)" "0 \<le> col"
    "nat col < length (pyramid g ! nat row)" "pyramid g ! nat row ! nat col \<noteq> None"
  using assms
  by (auto simp add: removeCard_def getCardAt_def isRowInBounds_def isCardInBounds_def
      split: sum.splits option.splits bool.splits if_splits)

lemma removeCard_count:
  assumes "fst (removeCard g row col) = Inr ()"
  shows "Suc (cardsInPlay (snd (removeCard g row col))) = cardsInPlay g"
    "stock (snd (removeCard g row col)) = stock g"
proof -
  note s = removeCard_success [OF assms]
  show "Suc (cardsInPlay (snd (removeCard g row col))) = cardsInPlay g"
    using setSlot_clear_count [OF s(2-6)] by (simp add: s(1) cardsInPlay_def)
  show "stock (snd (removeCard g row col)) = stock g" by (simp add: s(1))
qed

lemma discardDraw_count:
  assumes "fst (discardDraw g i) = Inr ()" "None \<notin> set (stock g)"
  shows "Suc (cardsInPlay (snd (discardDraw g i))) = cardsInPlay g"
    "None \<notin> set (stock (snd (discardDraw g i)))"
proof -
  have b: "nat i < length (draws g)" "draws g ! nat i \<noteq> None"
    using assms(1) by (auto simp add: discardDraw_def split: sum.splits if_splits)
  have "Suc (cardsInPlay (snd (discardDraw g i))) = cardsInPlay g \<and>
    None \<notin> set (stock (snd (discardDraw g i)))"
  proof (cases "stock g")
    case Nil
    then have e: "snd (discardDraw g i) = g\<lparr>draws := (draws g)[nat i := None]\<rparr>"
      using assms(1) by (auto simp add: discardDraw_def split: sum.splits if_splits)
    have "Suc (cardsInPlay (snd (discardDraw g i))) = cardsInPlay g"
      using countNonEmpty_update [OF b(1), of None] b(2) by (simp add: e cardsInPlay_def)
    moreover have "None \<notin> set (stock (snd (discardDraw g i)))"
      using assms(2) by (simp add: e)
    ultimately show ?thesis by simp
  next
    case (Cons x xs)
    then have e: "snd (discardDraw g i) = g\<lparr>draws := (draws g)[nat i := x], stock := xs\<rparr>"
      using assms(1) by (auto simp add: discardDraw_def split: sum.splits if_splits)
    have x: "x \<noteq> None" using assms(2) Cons by (cases x) auto
    have "Suc (cardsInPlay (snd (discardDraw g i))) = cardsInPlay g"
      using countNonEmpty_update [OF b(1), of x] b(2) x Cons by (simp add: e cardsInPlay_def)
    moreover have "None \<notin> set (stock (snd (discardDraw g i)))"
      using assms(2) Cons by (simp add: e)
    ultimately show ?thesis by simp
  qed
  then show "Suc (cardsInPlay (snd (discardDraw g i))) = cardsInPlay g"
    "None \<notin> set (stock (snd (discardDraw g i)))"
    by simp_all
qed

lemma removeUsingDraw_count:
  assumes "fst (removeUsingDraw g i row col) = Inr ()" "None \<notin> set (stock g)"
  shows "cardsInPlay (snd (removeUsingDraw g i row col)) + 2 = cardsInPlay g"
    "None \<notin> set (stock (snd (removeUsingDraw g i row col)))"
proof -
  let ?g1 = "g\<lparr>pyramid := setSlot (pyramid g) row col None\<rparr>"
  have call: "removeUsingDraw g i row col = discardDraw ?g1 i"
    and b: "0 \<le> row" "nat row < length (pyramid g)" "0 \<le> col"
      "nat col < length (pyramid g ! nat row)" "pyramid g ! nat row ! nat col \<noteq> None"
    using assms(1)
    by (auto simp add: removeUsingDraw_def getCardAt_def isRowInBounds_def isCardInBounds_def
        split: sum.splits option.splits bool.splits if_splits)
  have ok: "fst (discardDraw ?g1 i) = Inr ()" using assms(1) call by simp
  have st: "None \<notin> set (stock ?g1)" using assms(2) by simp
  have "Suc (cardsInPlay ?g1) = cardsInPlay g"
    using setSlot_clear_count [OF b] by (simp add: cardsInPlay_def)
  then show "cardsInPlay (snd (removeUsingDraw g i row col)) + 2 = cardsInPlay g"
    using discardDraw_count(1) [OF ok st] call by simp
  show "None \<notin> set (stock (snd (removeUsingDraw g i row col)))"
    using discardDraw_count(2) [OF ok st] call by simp
qed

lemma removeTwo_success:
  assumes "fst (removeTwo g row1 card1 row2 card2) = Inr ()"
  shows "snd (removeTwo g row1 card1 row2 card2) =
      g\<lparr>pyramid := setSlot (setSlot (pyramid g) row1 card1 None) row2 card2 None\<rparr>"
    "0 \<le> row1" "nat row1 < length (pyramid g)" "0 \<le> card1"
    "nat card1 < length (pyramid g ! nat row1)" "pyramid g ! nat row1 ! nat card1 \<noteq> None"
    "0 \<le> row2" "nat row2 < length (pyramid g)" "0 \<le> card2"
    "nat card2 < length (pyramid g ! nat row2)" "pyramid g ! nat row2 ! nat card2 \<noteq> None"
    "row1 \<noteq> row2 \<or> card1 \<noteq> card2"
proof -
  from assms have chk: "removeTwoChecks g row1 card1 row2 card2 = Inr ()"
    by (simp add: removeTwo_def split: sum.splits)
  from removeTwoChecks_values [OF chk] obtain c1 c2 where
    v: "pyramid g ! nat row1 ! nat card1 = Some c1" "pyramid g ! nat row2 ! nat card2 = Some c2"
      "rank c1 + rank c2 = 13"
    and b: "isCardInBounds g row1 card1" "isCardInBounds g row2 card2"
    by blast
  show "snd (removeTwo g row1 card1 row2 card2) =
      g\<lparr>pyramid := setSlot (setSlot (pyramid g) row1 card1 None) row2 card2 None\<rparr>"
    using assms by (simp add: removeTwo_def Let_def split: sum.splits bool.splits)
  show "0 \<le> row1" "nat row1 < length (pyramid g)" "0 \<le> card1"
    "nat card1 < length (pyramid g ! nat row1)"
    "0 \<le> row2" "nat row2 < length (pyramid g)" "0 \<le> card2"
    "nat card2 < length (pyramid g ! nat row2)"
    using b by (auto simp add: isCardInBounds_def isRowInBounds_def)
  show "pyramid g ! nat row1 ! nat card1 \<noteq> None" "pyramid g ! nat row2 ! nat card2 \<noteq> None"
    using v by simp_all
  show "row1 \<noteq> row2 \<or> card1 \<noteq> card2"
  proof (rule ccontr)
    assume "\<not> (row1 \<noteq> row2 \<or> card1 \<noteq> card2)"
    then have "c1 = c2" using v by simp
    then have "rank c1 + rank c1 = 13" using v by simp
    then show False by presburger
  qed
qed

lemma removeTwo_count:
  assumes "fst (removeTwo g row1 card1 row2 card2) = Inr ()"
  shows "cardsInPlay (snd (removeTwo g row1 card1 row2 card2)) + 2 = cardsInPlay g"
    "stock (snd (removeTwo g row1 card1 row2 card2)) = stock g"
proof -
  note s = removeTwo_success [OF assms]
  let ?p1 = "setSlot (pyramid g) row1 card1 None"
  have one: "Suc (sum_list (map countNonEmpty ?p1)) = sum_list (map countNonEmpty (pyramid g))"
    by (rule setSlot_clear_count [OF s(2-6)])
  have len: "nat row2 < length ?p1" using s(8) by (simp add: setSlot_def)
  have row: "nat card2 < length (?p1 ! nat row2)"
    using s(3) s(8) s(10) by (simp add: setSlot_def nth_list_update)
  have "nat row1 \<noteq> nat row2 \<or> nat card1 \<noteq> nat card2"
    using s(2) s(4) s(7) s(9) s(12) by auto
  then have still: "?p1 ! nat row2 ! nat card2 \<noteq> None"
    using s(3) s(5) s(8) s(10) s(11) by (auto simp add: setSlot_def nth_list_update)
  have two: "Suc (sum_list (map countNonEmpty (setSlot ?p1 row2 card2 None)))
      = sum_list (map countNonEmpty ?p1)"
    by (rule setSlot_clear_count [OF s(7) len s(9) row still])
  show "cardsInPlay (snd (removeTwo g row1 card1 row2 card2)) + 2 = cardsInPlay g"
    using one two by (simp add: s(1) cardsInPlay_def)
  show "stock (snd (removeTwo g row1 card1 row2 card2)) = stock g" by (simp add: s(1))
qed

lemma applyMove_count:
  assumes "fst (applyMove g m) = Inr ()" "None \<notin> set (stock g)"
  shows "cardsInPlay (snd (applyMove g m)) + cardsTakenOut m = cardsInPlay g \<and>
         None \<notin> set (stock (snd (applyMove g m)))"
proof (cases m)
  case (Remove row col)
  then show ?thesis using assms removeCard_count [of g row col] by simp
next
  case (RemoveTwo row1 card1 row2 card2)
  then show ?thesis using assms removeTwo_count [of g row1 card1 row2 card2] by simp
next
  case (RemoveUsingDraw i row col)
  then show ?thesis using assms removeUsingDraw_count [of g i row col] by simp
next
  case (DiscardDraw i)
  then show ?thesis using assms discardDraw_count [of g i] by simp
qed

lemma runMoves_count:
  "runMoves g ms = Some g' \<Longrightarrow> None \<notin> set (stock g) \<Longrightarrow>
     cardsInPlay g' + sum_list (map cardsTakenOut ms) = cardsInPlay g"
proof (induction ms arbitrary: g)
  case Nil
  then show ?case by simp
next
  case (Cons m ms)
  from Cons.prems(1) have ok: "fst (applyMove g m) = Inr ()"
    and rest: "runMoves (snd (applyMove g m)) ms = Some g'"
    by (auto split: prod.splits sum.splits)
  from applyMove_count [OF ok Cons.prems(2)]
  have c: "cardsInPlay (snd (applyMove g m)) + cardsTakenOut m = cardsInPlay g"
    and n: "None \<notin> set (stock (snd (applyMove g m)))"
    by simp_all
  from Cons.IH [OF rest n] c show ?case by simp
qed

lemma setSlot_shape: "map length (setSlot p row col v) = map length p"
proof (cases "nat row < length p")
  case True
  have "(map length p)[nat row := map length p ! nat row] = map length p"
    by (rule list_update_id)
  then show ?thesis using True by (simp add: setSlot_def map_update)
next
  case False
  then have "p[nat row := (p ! nat row)[nat col := v]] = p"
    by (intro list_update_beyond) simp
  then show ?thesis by (simp add: setSlot_def)
qed

lemma applyMove_shape:
  "map length (pyramid (snd (applyMove g m))) = map length (pyramid g) \<and>
   (gamestate g = STARTED \<longrightarrow> gamestate (snd (applyMove g m)) = STARTED)"
proof (cases m)
  case (Remove row col)
  then show ?thesis
    by (simp add: removeCard_def setSlot_shape
        split: sum.splits option.splits bool.splits)
next
  case (RemoveTwo row1 card1 row2 card2)
  then show ?thesis
    by (simp add: removeTwo_def setSlot_shape Let_def
        split: sum.splits option.splits bool.splits)
next
  case (DiscardDraw i)
  then show ?thesis
    by (simp add: discardDraw_def split: sum.splits)
next
  case (RemoveUsingDraw i row col)
  then show ?thesis
    by (simp add: removeUsingDraw_def discardDraw_def checkStarted_def setSlot_shape
        split: sum.splits option.splits bool.splits)
qed

lemma runMoves_shape:
  "runMoves g ms = Some g' \<Longrightarrow> triangular (pyramid g) \<Longrightarrow> gamestate g = STARTED
     \<Longrightarrow> triangular (pyramid g') \<and> gamestate g' = STARTED"
proof (induction ms arbitrary: g)
  case Nil
  then show ?case by simp
next
  case (Cons m ms)
  from Cons.prems(1) have rest: "runMoves (snd (applyMove g m)) ms = Some g'"
    by (auto split: prod.splits sum.splits)
  have "map length (pyramid (snd (applyMove g m))) = map length (pyramid g)"
    using applyMove_shape [of g m] by simp
  then have "length (pyramid (snd (applyMove g m))) = length (pyramid g)"
    by (metis length_map)
  with \<open>map length (pyramid (snd (applyMove g m))) = map length (pyramid g)\<close>
  have t: "triangular (pyramid (snd (applyMove g m)))"
    using Cons.prems(2) by (simp add: triangular_def)
  have s: "gamestate (snd (applyMove g m)) = STARTED"
    using applyMove_shape [of g m] Cons.prems(3) by simp
  from Cons.IH [OF rest t s] show ?case .
qed

lemma reachable_shape:
  assumes "startGame g (Some deck) doShuffle rnd numRows numDraw = (Inr (), g1, deck')"
    and "runMoves g1 ms = Some g2"
  shows "triangular (pyramid g2)" "gamestate g2 = STARTED"
  using runMoves_shape [OF assms(2) startGame_deals_all(4,5) [OF assms(1)]] by simp_all

subsection \<open>The win test\<close>

text \<open>
  The callbacks of \<open>isGameWon\<close> return into \<open>forEach\<close>, so the method itself always
  returns \<open>true\<close>; with it \<open>isGameOver\<close> and \<open>getScore\<close> are constant on started games.
\<close>

lemma isGameWon_always: "isGameWon g = True"
  by (simp add: isGameWon_def split: unit.splits)

lemma isGameOver_started: "gamestate g = STARTED \<Longrightarrow> isGameOver g = Inr True"
  by (simp add: isGameOver_def checkStarted_def isGameWon_always)

lemma getScore_started: "gamestate g = STARTED \<Longrightarrow> getScore g = Inr 0"
  by (simp add: getScore_def checkStarted_def isGameWon_always)

subsection \<open>Two dealt games\<close>

text \<open>
  The game of \<open>App.tsx\<close> (seven rows, three draw cards) and the deal of nine rows and
  seven draw cards, which leaves no stock, both from the standard deck in its order.
\<close>

lemma appGame_value:
  "appGame =
    \<lparr>pyramid = [[Some \<lparr>suit = HEART, rank = 1\<rparr>], [Some \<lparr>suit =
    HEART, rank = 2\<rparr>, Some \<lparr>suit = HEART, rank = 3\<rparr>], [Some \<lparr>suit =
    HEART, rank = 4\<rparr>, Some \<lparr>suit = HEART, rank = 5\<rparr>, Some \<lparr>suit =
    HEART, rank = 6\<rparr>], [Some \<lparr>suit = HEART, rank = 7\<rparr>, Some \<lparr>suit =
    HEART, rank = 8\<rparr>, Some \<lparr>suit = HEART, rank = 9\<rparr>, Some \<lparr>suit =
    HEART, rank = 10\<rparr>], [Some \<lparr>suit = HEART, rank = 11\<rparr>, Some \<lparr>suit
    = HEART, rank = 12\<rparr>, Some \<lparr>suit = HEART, rank = 13\<rparr>, Some \<lparr>suit
    = SPADE, rank = 1\<rparr>, Some \<lparr>suit = SPADE, rank = 2\<rparr>], [Some \<lparr>suit
    = SPADE, rank = 3\<rparr>, Some \<lparr>suit = SPADE, rank = 4\<rparr>, Some \<lparr>suit =
    SPADE, rank = 5\<rparr>, Some \<lparr>suit = SPADE, rank = 6\<rparr>, Some \<lparr>suit =
    SPADE, rank = 7\<rparr>, Some \<lparr>suit = SPADE, rank = 8\<rparr>], [Some \<lparr>suit =
    SPADE, rank = 9\<rparr>, Some \<lparr>suit = SPADE, rank = 10\<rparr>, Some \<lparr>suit =
    SPADE, rank = 11\<rparr>, Some \<lparr>suit = SPADE, rank = 12\<rparr>, Some \<lparr>suit =
    SPADE, rank = 13\<rparr>, Some \<lparr>suit = CLUB, rank = 1\<rparr>, Some \<lparr>suit =
    CLUB, rank = 2\<rparr>]], stock = [Some \<lparr>suit = CLUB, rank = 6\<rparr>, Some
    \<lparr>suit = CLUB, rank = 7\<rparr>, Some \<lparr>suit = CLUB, rank = 8\<rparr>, Some
    \<lparr>suit = CLUB, rank = 9\<rparr>, Some \<lparr>suit = CLUB, rank = 10\<rparr>, Some
    \<lparr>suit = CLUB, rank = 11\<rparr>, Some \<lparr>suit = CLUB, rank = 12\<rparr>, Some
    \<lparr>suit = CLUB, rank = 13\<rparr>, Some \<lparr>suit = DIAMOND, rank = 1\<rparr>, Some
    \<lparr>suit = DIAMOND, rank = 2\<rparr>, Some \<lparr>suit = DIAMOND, rank = 3\<rparr>,
    Some \<lparr>suit = DIAMOND, rank = 4\<rparr>, Some \<lparr>suit = DIAMOND, rank =
    5\<rparr>, Some \<lparr>suit = DIAMOND, rank = 6\<rparr>, Some \<lparr>suit = DIAMOND, rank
    = 7\<rparr>, Some \<lparr>suit = DIAMOND, rank = 8\<rparr>, Some \<lparr>suit = DIAMOND,
    rank = 9\<rparr>, Some \<lparr>suit = DIAMOND, rank = 10\<rparr>, Some \<lparr>suit =
    DIAMOND, rank = 11\<rparr>, Some \<lparr>suit = DIAMOND, rank = 12\<rparr>, Some
    \<lparr>suit = DIAMOND, rank = 13\<rparr>], draws = [Some \<lparr>suit = CLUB, rank =
    3\<rparr>, Some \<lparr>suit = CLUB, rank = 4\<rparr>, Some \<lparr>suit = CLUB, rank =
    5\<rparr>], gamestate = STARTED\<rparr>"
  by code_simp

lemma fullDeal_value:
  "startGame newGame (Some (map Some getDeck)) False (\<lambda>_. 0) 9 7 =
     (Inr (),
    \<lparr>pyramid = [[Some \<lparr>suit = HEART, rank = 1\<rparr>], [Some \<lparr>suit =
    HEART, rank = 2\<rparr>, Some \<lparr>suit = HEART, rank = 3\<rparr>], [Some \<lparr>suit =
    HEART, rank = 4\<rparr>, Some \<lparr>suit = HEART, rank = 5\<rparr>, Some \<lparr>suit =
    HEART, rank = 6\<rparr>], [Some \<lparr>suit = HEART, rank = 7\<rparr>, Some \<lparr>suit =
    HEART, rank = 8\<rparr>, Some \<lparr>suit = HEART, rank = 9\<rparr>, Some \<lparr>suit =
    HEART, rank = 10\<rparr>], [Some \<lparr>suit = HEART, rank = 11\<rparr>, Some \<lparr>suit
    = HEART, rank = 12\<rparr>, Some \<lparr>suit = HEART, rank = 13\<rparr>, Some \<lparr>suit
    = SPADE, rank = 1\<rparr>, Some \<lparr>suit = SPADE, rank = 2\<rparr>], [Some \<lparr>suit
    = SPADE, rank = 3\<rparr>, Some \<lparr>suit = SPADE, rank = 4\<rparr>, Some \<lparr>suit =
    SPADE, rank = 5\<rparr>, Some \<lparr>suit = SPADE, rank = 6\<rparr>, Some \<lparr>suit =
    SPADE, rank = 7\<rparr>, Some \<lparr>suit = SPADE, rank = 8\<rparr>], [Some \<lparr>suit =
    SPADE, rank = 9\<rparr>, Some \<lparr>suit = SPADE, rank = 10\<rparr>, Some \<lparr>suit =
    SPADE, rank = 11\<rparr>, Some \<lparr>suit = SPADE, rank = 12\<rparr>, Some \<lparr>suit =
    SPADE, rank = 13\<rparr>, Some \<lparr>suit = CLUB, rank = 1\<rparr>, Some \<lparr>suit =
    CLUB, rank = 2\<rparr>], [Some \<lparr>suit = CLUB, rank = 3\<rparr>, Some \<lparr>suit =
    CLUB, rank = 4\<rparr>, Some \<lparr>suit = CLUB, rank = 5\<rparr>, Some \<lparr>suit =
    CLUB, rank = 6\<rparr>, Some \<lparr>suit = CLUB, rank = 7\<rparr>, Some \<lparr>suit =
    CLUB, rank = 8\<rparr>, Some \<lparr>suit = CLUB, rank = 9\<rparr>, Some \<lparr>suit =
    CLUB, rank = 10\<rparr>], [Some \<lparr>suit = CLUB, rank = 11\<rparr>, Some \<lparr>suit =
    CLUB, rank = 12\<rparr>, Some \<lparr>suit = CLUB, rank = 13\<rparr>, Some \<lparr>suit =
    DIAMOND, rank = 1\<rparr>, Some \<lparr>suit = DIAMOND, rank = 2\<rparr>, Some \<lparr>suit
    = DIAMOND, rank = 3\<rparr>, Some \<lparr>suit = DIAMOND, rank = 4\<rparr>, Some
    \<lparr>suit = DIAMOND, rank = 5\<rparr>, Some \<lparr>suit = DIAMOND, rank = 6\<rparr>]],
    stock = [], draws = [Some \<lparr>suit = DIAMOND, rank = 7\<rparr>, Some \<lparr>suit =
    DIAMOND, rank = 8\<rparr>, Some \<lparr>suit = DIAMOND, rank = 9\<rparr>, Some \<lparr>suit
    = DIAMOND, rank = 10\<rparr>, Some \<lparr>suit = DIAMOND, rank = 11\<rparr>, Some
    \<lparr>suit = DIAMOND, rank = 12\<rparr>, Some \<lparr>suit = DIAMOND, rank = 13\<rparr>],
    gamestate = STARTED\<rparr>,
      Some (map Some getDeck))"
  by code_simp

lemma appGame_start:
  "startGame newGame (Some (map Some getDeck)) False (\<lambda>_. 0) 7 3
     = (Inr (), appGame, Some (map Some getDeck))"
proof -
  have "fst (startGame newGame (Some (map Some getDeck)) False (\<lambda>_. 0) 7 3) = Inr ()"
    by (simp add: startGame_def getDeck_valid getDeck_length isEnoughCards_def Let_def
        split_beta)
  moreover have "snd (snd (startGame newGame (Some (map Some getDeck)) False (\<lambda>_. 0) 7 3))
      = Some (map Some getDeck)"
    by (simp add: startGame_def getDeck_valid getDeck_length isEnoughCards_def Let_def
        split_beta)
  ultimately show ?thesis by (simp add: appGame_def prod_eq_iff)
qed

section \<open>Single removal\<close>

text \<open>
  Claim C6. In a started game whose pyramid has the dealt shape, for a row index in
  \<open>[0, R)\<close>, a column in \<open>[0, row]\<close> and a slot that holds a card: \<open>remove\<close> succeeds exactly
  when the rank is 13 and the slot is uncovered (last row, or both slots beneath empty);
  on success exactly that slot is emptied and nothing else changes; a rank other than 13
  fails with \<open>InvalidMove\<close>, a covered card of rank 13 with \<open>Covered\<close>, the engine unchanged.
  Every game reached from a successful \<open>startGame\<close> by successful moves is started and has
  the dealt shape (\<open>reachable_shape\<close>).
\<close>

theorem remove_spec:
  assumes "gamestate g = STARTED" "triangular (pyramid g)"
    "0 \<le> row" "row < int (length (pyramid g))" "0 \<le> col" "col \<le> row"
    "pyramid g ! nat row ! nat col = Some c"
  shows
    "(fst (removeCard g row col) = Inr () \<longleftrightarrow>
        rank c = 13 \<and>
        (row = int (length (pyramid g)) - 1 \<or>
         (pyramid g ! nat (row + 1) ! nat col = None \<and>
          pyramid g ! nat (row + 1) ! nat (col + 1) = None))) \<and>
     (fst (removeCard g row col) = Inr () \<longrightarrow>
        snd (removeCard g row col) =
          g\<lparr>pyramid := (pyramid g)[nat row := (pyramid g ! nat row)[nat col := None]]\<rparr>) \<and>
     (rank c \<noteq> 13 \<longrightarrow> removeCard g row col = (Inl InvalidMove, g)) \<and>
     (rank c = 13 \<and>
        \<not> (row = int (length (pyramid g)) - 1 \<or>
           (pyramid g ! nat (row + 1) ! nat col = None \<and>
            pyramid g ! nat (row + 1) ! nat (col + 1) = None))
        \<longrightarrow> removeCard g row col = (Inl Covered, g))"
proof -
  have l0: "length (pyramid g ! nat row) = Suc (nat row)"
    using assms by (intro triangular_row) auto
  have get: "getCardAt g row col = Inr (Some c)"
    using assms l0 getCardAt_in_bounds [of g row col] by simp
  have cov: "isCovered g row col =
     Inr (row \<noteq> int (length (pyramid g)) - 1 \<and>
          (pyramid g ! nat (row + 1) ! nat col \<noteq> None \<or>
           pyramid g ! nat (row + 1) ! nat (col + 1) \<noteq> None))"
    using assms by (intro isCovered_triangular) auto
  have bounds: "isRowInBounds g row" "isCardInBounds g row col"
    using assms l0 by (auto simp add: isRowInBounds_def isCardInBounds_def)
  show ?thesis
    using assms(1) bounds get cov
    by (auto simp add: removeCard_def checkStarted_def getValue_def removalValue_def
        setSlot_def split: bool.splits)
qed

theorem remove_spec_witness:
  "fst (removeCard appGame 6 4) = Inr () \<and>
   snd (removeCard appGame 6 4) =
     appGame\<lparr>pyramid := (pyramid appGame)[nat 6 := (pyramid appGame ! nat 6)[nat 4 := None]]\<rparr> \<and>
   removeCard appGame 0 0 = (Inl InvalidMove, appGame) \<and>
   removeCard appGame 4 2 = (Inl Covered, appGame)"
proof -
  have s: "gamestate appGame = STARTED" by (simp add: appGame_value)
  have t: "triangular (pyramid appGame)" by (simp add: appGame_value triangular_def upt_rec)
  have z: "(0::int) \<le> 6" "(0::int) \<le> 4" "(4::int) \<le> 6" "(0::int) \<le> 0" "(0::int) \<le> 2"
    "(2::int) \<le> 4"
    by simp_all
  have n: "(6::int) < int (length (pyramid appGame))" "(0::int) < int (length (pyramid appGame))"
    "(4::int) < int (length (pyramid appGame))"
    by (simp_all add: appGame_value)
  have k: "pyramid appGame ! nat 6 ! nat 4 = Some \<lparr>suit = SPADE, rank = 13\<rparr>"
    by (simp add: appGame_value)
  have a: "pyramid appGame ! nat 0 ! nat 0 = Some \<lparr>suit = HEART, rank = 1\<rparr>"
    by (simp add: appGame_value)
  have c: "pyramid appGame ! nat 4 ! nat 2 = Some \<lparr>suit = HEART, rank = 13\<rparr>"
    by (simp add: appGame_value)
  have last: "(6::int) = int (length (pyramid appGame)) - 1" by (simp add: appGame_value)
  have below: "pyramid appGame ! nat (4 + 1) ! nat 2 \<noteq> None"
    "(4::int) \<noteq> int (length (pyramid appGame)) - 1"
    by (simp_all add: appGame_value)
  have r1: "fst (removeCard appGame 6 4) = Inr () \<and>
      snd (removeCard appGame 6 4) =
        appGame\<lparr>pyramid := (pyramid appGame)[nat 6 := (pyramid appGame ! nat 6)[nat 4 := None]]\<rparr>"
    using remove_spec [OF s t z(1) n(1) z(2) z(3) k] last by simp
  have r2: "removeCard appGame 0 0 = (Inl InvalidMove, appGame)"
    using remove_spec [OF s t z(4) n(2) z(4) z(4) a] by simp
  have r3: "removeCard appGame 4 2 = (Inl Covered, appGame)"
    using remove_spec [OF s t z(2) n(3) z(5) z(6) c] below by simp
  show ?thesis using r1 r2 r3 by blast
qed

section \<open>Discarding a draw card\<close>

text \<open>
  Claim C7. In a started game, for an in-bounds draw index whose slot holds a card,
  \<open>discardDraw\<close> succeeds; with a non-empty stock the slot then holds the former front card
  of the stock and the stock is shorter by one; with an empty stock the slot is empty;
  the draw pile keeps its length either way.
\<close>

theorem discardDraw_replaces_in_place:
  assumes "gamestate g = STARTED" "0 \<le> i" "i < int (length (draws g))"
    "draws g ! nat i = Some c"
  shows
    "fst (discardDraw g i) = Inr () \<and>
     (stock g \<noteq> [] \<longrightarrow>
        draws (snd (discardDraw g i)) ! nat i = hd (stock g) \<and>
        stock (snd (discardDraw g i)) = tl (stock g) \<and>
        Suc (length (stock (snd (discardDraw g i)))) = length (stock g)) \<and>
     (stock g = [] \<longrightarrow>
        draws (snd (discardDraw g i)) ! nat i = None \<and>
        stock (snd (discardDraw g i)) = []) \<and>
     length (draws (snd (discardDraw g i))) = length (draws g) \<and>
     pyramid (snd (discardDraw g i)) = pyramid g"
proof (cases "stock g = []")
  case True
  then show ?thesis
    using assms by (simp add: discardDraw_def checkStarted_def)
next
  case False
  then show ?thesis
    using assms by (simp add: discardDraw_def checkStarted_def)
qed

theorem discardDraw_replaces_in_place_witness:
  "fst (discardDraw appGame 1) = Inr () \<and>
   draws (snd (discardDraw appGame 1)) ! nat 1 = hd (stock appGame) \<and>
   hd (stock appGame) = Some \<lparr>suit = CLUB, rank = 6\<rparr> \<and>
   length (stock appGame) = 21 \<and>
   length (stock (snd (discardDraw appGame 1))) = 20 \<and>
   length (draws (snd (discardDraw appGame 1))) = 3 \<and>
   stock (fst (snd (startGame newGame (Some (map Some getDeck)) False (\<lambda>_. 0) 9 7))) = [] \<and>
   draws (snd (discardDraw
       (fst (snd (startGame newGame (Some (map Some getDeck)) False (\<lambda>_. 0) 9 7))) 6)) ! nat 6
     = None \<and>
   length (draws (snd (discardDraw
       (fst (snd (startGame newGame (Some (map Some getDeck)) False (\<lambda>_. 0) 9 7))) 6))) = 7"
proof -
  let ?full = "fst (snd (startGame newGame (Some (map Some getDeck)) False (\<lambda>_. 0) 9 7))"
  have a1: "gamestate appGame = STARTED" by (simp add: appGame_value)
  have a2: "(1::int) < int (length (draws appGame))" by (simp add: appGame_value)
  have a3: "draws appGame ! nat 1 = Some \<lparr>suit = CLUB, rank = 4\<rparr>" by (simp add: appGame_value)
  have a4: "stock appGame \<noteq> []" by (simp add: appGame_value)
  have a5: "hd (stock appGame) = Some \<lparr>suit = CLUB, rank = 6\<rparr>" by (simp add: appGame_value)
  have a6: "length (stock appGame) = 21" by (simp add: appGame_value)
  have a7: "length (draws appGame) = 3" by (simp add: appGame_value)
  have f1: "gamestate ?full = STARTED" by (simp add: fullDeal_value)
  have f2: "(6::int) < int (length (draws ?full))" by (simp add: fullDeal_value)
  have f3: "draws ?full ! nat 6 = Some \<lparr>suit = DIAMOND, rank = 13\<rparr>"
    by (simp add: fullDeal_value)
  have f4: "stock ?full = []" by (simp add: fullDeal_value)
  have f5: "length (draws ?full) = 7" by (simp add: fullDeal_value)
  note a = discardDraw_replaces_in_place [OF a1 _ a2 a3]
  note f = discardDraw_replaces_in_place [OF f1 _ f2 f3]
  show ?thesis using a f a4 a5 a6 a7 f4 f5 by simp
qed

section \<open>Lifecycle\<close>

text \<open>
  Claim C5, as stated, fails for \<open>getNumRows\<close> and \<open>getNumDraw\<close>: on an engine that was
  never started they return \<open>-1\<close> and throw nothing.
\<close>

theorem not_started_counterexample:
  "gamestate newGame = NOT_STARTED \<and>
   getNumRows newGame = Inr (- 1) \<and> getNumRows newGame \<noteq> Inl NotStarted \<and>
   getNumDraw newGame = Inr (- 1) \<and> getNumDraw newGame \<noteq> Inl NotStarted"
  by (simp add: newGame_def getNumRows_def getNumDraw_def)

text \<open>
  Claim C5, amended. On an engine that is not started, \<open>remove\<close>, \<open>removeTwo\<close>,
  \<open>removeUsingDraw\<close>, \<open>discardDraw\<close>, \<open>getScore\<close>, \<open>isGameOver\<close>, \<open>getCardAt\<close>,
  \<open>getDrawCards\<close> and \<open>getRowWidth\<close> fail with \<open>NotStarted\<close> and change nothing, while
  \<open>getNumRows\<close> and \<open>getNumDraw\<close> return \<open>-1\<close>; a started engine stays started under
  every move and under \<open>startGame\<close>, whether they succeed or fail.
\<close>

theorem lifecycle_checks:
  "(gamestate g = NOT_STARTED \<longrightarrow>
      removeCard g row col = (Inl NotStarted, g) \<and>
      removeTwo g row1 card1 row2 card2 = (Inl NotStarted, g) \<and>
      removeUsingDraw g drawIndex row col = (Inl NotStarted, g) \<and>
      discardDraw g drawIndex = (Inl NotStarted, g) \<and>
      getScore g = Inl NotStarted \<and>
      isGameOver g = Inl NotStarted \<and>
      getCardAt g row col = Inl NotStarted \<and>
      getDrawCards g = Inl NotStarted \<and>
      getRowWidth g row = Inl NotStarted \<and>
      getNumRows g = Inr (- 1) \<and>
      getNumDraw g = Inr (- 1)) \<and>
   (gamestate h = STARTED \<longrightarrow>
      gamestate (snd (removeCard h row col)) = STARTED \<and>
      gamestate (snd (removeTwo h row1 card1 row2 card2)) = STARTED \<and>
      gamestate (snd (removeUsingDraw h drawIndex row col)) = STARTED \<and>
      gamestate (snd (discardDraw h drawIndex)) = STARTED \<and>
      gamestate (fst (snd (startGame h deckArg doShuffle rnd numRows numDraw))) = STARTED)"
proof (intro conjI impI)
  assume n: "gamestate g = NOT_STARTED"
  show "removeCard g row col = (Inl NotStarted, g)"
    using n by (simp add: removeCard_def checkStarted_def)
  show "removeTwo g row1 card1 row2 card2 = (Inl NotStarted, g)"
    using n by (simp add: removeTwo_def removeTwoChecks_def checkStarted_def)
  show "removeUsingDraw g drawIndex row col = (Inl NotStarted, g)"
    using n by (simp add: removeUsingDraw_def checkStarted_def)
  show "discardDraw g drawIndex = (Inl NotStarted, g)"
    using n by (simp add: discardDraw_def checkStarted_def)
  show "getScore g = Inl NotStarted"
    using n by (simp add: getScore_def checkStarted_def)
  show "isGameOver g = Inl NotStarted"
    using n by (simp add: isGameOver_def checkStarted_def)
  show "getCardAt g row col = Inl NotStarted"
    using n by (simp add: getCardAt_def checkStarted_def)
  show "getDrawCards g = Inl NotStarted"
    using n by (simp add: getDrawCards_def checkStarted_def)
  show "getRowWidth g row = Inl NotStarted"
    using n by (simp add: getRowWidth_def checkStarted_def)
  show "getNumRows g = Inr (- 1)"
    using n by (simp add: getNumRows_def)
  show "getNumDraw g = Inr (- 1)"
    using n by (simp add: getNumDraw_def)
next
  assume s: "gamestate h = STARTED"
  show "gamestate (snd (removeCard h row col)) = STARTED"
    using s by (simp add: removeCard_def split: sum.splits option.splits bool.splits)
  show "gamestate (snd (removeTwo h row1 card1 row2 card2)) = STARTED"
    using s by (simp add: removeTwo_def Let_def split: sum.splits option.splits bool.splits)
  show "gamestate (snd (discardDraw h drawIndex)) = STARTED"
    using s by (rule discardDraw_started)
  show "gamestate (snd (removeUsingDraw h drawIndex row col)) = STARTED"
    using s
    by (simp add: removeUsingDraw_def discardDraw_started
        split: sum.splits option.splits bool.splits)
  show "gamestate (fst (snd (startGame h deckArg doShuffle rnd numRows numDraw))) = STARTED"
    using s by (simp add: startGame_def Let_def split: sum.splits option.splits bool.splits prod.splits)
qed

theorem lifecycle_checks_witness:
  "gamestate newGame = NOT_STARTED \<and>
   removeCard newGame 6 4 = (Inl NotStarted, newGame) \<and>
   removeTwo newGame 6 3 6 5 = (Inl NotStarted, newGame) \<and>
   removeUsingDraw newGame 0 6 4 = (Inl NotStarted, newGame) \<and>
   discardDraw newGame 0 = (Inl NotStarted, newGame) \<and>
   getScore newGame = Inl NotStarted \<and>
   isGameOver newGame = Inl NotStarted \<and>
   getCardAt newGame 6 4 = Inl NotStarted \<and>
   getDrawCards newGame = Inl NotStarted \<and>
   getRowWidth newGame 6 = Inl NotStarted \<and>
   getNumRows newGame = Inr (- 1) \<and>
   getNumDraw newGame = Inr (- 1) \<and>
   gamestate appGame = STARTED \<and>
   gamestate (snd (removeCard appGame 6 4)) = STARTED \<and>
   gamestate (snd (removeTwo appGame 6 3 6 5)) = STARTED \<and>
   gamestate (snd (removeUsingDraw appGame 0 6 4)) = STARTED \<and>
   gamestate (snd (discardDraw appGame 0)) = STARTED \<and>
   gamestate (fst (snd (startGame appGame None False (\<lambda>_. 0) 7 3))) = STARTED"
proof -
  have n: "gamestate newGame = NOT_STARTED" by (simp add: newGame_def)
  have s: "gamestate appGame = STARTED" by (simp add: appGame_value)
  show ?thesis
    using n s lifecycle_checks [of newGame 6 4 6 3 6 5 0 appGame None False "\<lambda>_. 0" 7 3]
    by simp
qed

section \<open>Pair removal on one position\<close>

text \<open>
  Claim C10. In a started game, \<open>removeTwo\<close> given one in-bounds, non-empty position twice
  fails with \<open>InvalidMove\<close> and leaves the engine unchanged, since twice an integer rank
  is never 13. Hence a successful \<open>removeTwo\<close> names two different positions, both holding
  a card before and both empty after: it never clears a single slot only.
\<close>

theorem removeTwo_same_slot:
  "(gamestate g = STARTED \<and> 0 \<le> row \<and> row < int (length (pyramid g)) \<and> 0 \<le> col \<and>
    col < int (length (pyramid g ! nat row)) \<and> pyramid g ! nat row ! nat col = Some c
      \<longrightarrow> removeTwo g row col row col = (Inl InvalidMove, g)) \<and>
   (fst (removeTwo h row1 card1 row2 card2) = Inr ()
      \<longrightarrow> (row1 \<noteq> row2 \<or> card1 \<noteq> card2) \<and>
          pyramid h ! nat row1 ! nat card1 \<noteq> None \<and> pyramid h ! nat row2 ! nat card2 \<noteq> None \<and>
          pyramid (snd (removeTwo h row1 card1 row2 card2)) ! nat row1 ! nat card1 = None \<and>
          pyramid (snd (removeTwo h row1 card1 row2 card2)) ! nat row2 ! nat card2 = None)"
proof (intro conjI impI)
  assume a: "gamestate g = STARTED \<and> 0 \<le> row \<and> row < int (length (pyramid g)) \<and> 0 \<le> col \<and>
    col < int (length (pyramid g ! nat row)) \<and> pyramid g ! nat row ! nat col = Some c"
  have "rank c + rank c \<noteq> 13" by presburger
  then show "removeTwo g row col row col = (Inl InvalidMove, g)"
    using a
    by (simp add: removeTwo_def removeTwoChecks_def checkStarted_def isRowInBounds_def
        isCardInBounds_def getCardAt_def getValue_def removalValue_def)
next
  assume ok: "fst (removeTwo h row1 card1 row2 card2) = Inr ()"
  then have chk: "removeTwoChecks h row1 card1 row2 card2 = Inr ()"
    by (simp add: removeTwo_def split: sum.splits)
  from removeTwoChecks_values [OF chk] obtain c1 c2 where
    v: "pyramid h ! nat row1 ! nat card1 = Some c1" "pyramid h ! nat row2 ! nat card2 = Some c2"
      "rank c1 + rank c2 = 13"
    and b: "isCardInBounds h row1 card1" "isCardInBounds h row2 card2"
    by blast
  show "row1 \<noteq> row2 \<or> card1 \<noteq> card2"
  proof (rule ccontr)
    assume "\<not> (row1 \<noteq> row2 \<or> card1 \<noteq> card2)"
    then have "c1 = c2" using v by simp
    then have "rank c1 + rank c1 = 13" using v by simp
    then show False by presburger
  qed
  show "pyramid h ! nat row1 ! nat card1 \<noteq> None" using v by simp
  show "pyramid h ! nat row2 ! nat card2 \<noteq> None" using v by simp
  have snd_eq: "snd (removeTwo h row1 card1 row2 card2) =
      h\<lparr>pyramid := setSlot (setSlot (pyramid h) row1 card1 None) row2 card2 None\<rparr>"
    using ok by (simp add: removeTwo_def Let_def split: sum.splits bool.splits)
  have bb: "nat row1 < length (pyramid h)" "nat card1 < length (pyramid h ! nat row1)"
     "nat row2 < length (pyramid h)" "nat card2 < length (pyramid h ! nat row2)"
    using b by (auto simp add: isCardInBounds_def isRowInBounds_def)
  show "pyramid (snd (removeTwo h row1 card1 row2 card2)) ! nat row1 ! nat card1 = None"
    using bb by (auto simp add: snd_eq setSlot_def nth_list_update)
  show "pyramid (snd (removeTwo h row1 card1 row2 card2)) ! nat row2 ! nat card2 = None"
    using bb by (simp add: snd_eq setSlot_def nth_list_update)
qed

theorem removeTwo_same_slot_witness:
  "removeTwo appGame 6 4 6 4 = (Inl InvalidMove, appGame) \<and>
   fst (removeTwo appGame 6 3 6 5) = Inr () \<and>
   pyramid appGame ! nat 6 ! nat 3 = Some \<lparr>suit = SPADE, rank = 12\<rparr> \<and>
   pyramid appGame ! nat 6 ! nat 5 = Some \<lparr>suit = CLUB, rank = 1\<rparr> \<and>
   pyramid (snd (removeTwo appGame 6 3 6 5)) ! nat 6 ! nat 3 = None \<and>
   pyramid (snd (removeTwo appGame 6 3 6 5)) ! nat 6 ! nat 5 = None"
proof -
  have a: "gamestate appGame = STARTED \<and> (0::int) \<le> 6 \<and> 6 < int (length (pyramid appGame)) \<and>
      (0::int) \<le> 4 \<and> 4 < int (length (pyramid appGame ! nat 6)) \<and>
      pyramid appGame ! nat 6 ! nat 4 = Some \<lparr>suit = SPADE, rank = 13\<rparr>"
    by (simp add: appGame_value)
  have ok: "fst (removeTwo appGame 6 3 6 5) = Inr ()"
    by (simp add: appGame_value removeTwo_def removeTwoChecks_def checkStarted_def
        isRowInBounds_def isCardInBounds_def getCardAt_def isCovered_def getValue_def
        removalValue_def)
  have v: "pyramid appGame ! nat 6 ! nat 3 = Some \<lparr>suit = SPADE, rank = 12\<rparr>"
    "pyramid appGame ! nat 6 ! nat 5 = Some \<lparr>suit = CLUB, rank = 1\<rparr>"
    by (simp_all add: appGame_value)
  note t = removeTwo_same_slot
    [of appGame 6 4 "\<lparr>suit = SPADE, rank = 13\<rparr>" appGame 6 3 6 5]
  show ?thesis using t a ok v by blast
qed

section \<open>Failure leaves the engine unchanged\<close>

text \<open>
  Claim C9. Whenever \<open>startGame\<close>, \<open>remove\<close>, \<open>removeTwo\<close>, \<open>removeUsingDraw\<close> or
  \<open>discardDraw\<close> fails, the engine after the call (pyramid, draw pile, stock, lifecycle
  flag) is the engine before it, and for \<open>startGame\<close> the caller's deck is untouched as
  well: a failing \<open>removeTwo\<close> clears neither slot, a failing \<open>removeUsingDraw\<close> clears
  neither the pyramid slot nor the draw slot.
\<close>

theorem failed_operation_changes_nothing:
  "(isl (fst (startGame g deckArg doShuffle rnd numRows numDraw))
      \<longrightarrow> snd (startGame g deckArg doShuffle rnd numRows numDraw) = (g, deckArg)) \<and>
   (isl (fst (removeCard g row col)) \<longrightarrow> snd (removeCard g row col) = g) \<and>
   (isl (fst (removeTwo g row1 card1 row2 card2))
      \<longrightarrow> snd (removeTwo g row1 card1 row2 card2) = g) \<and>
   (isl (fst (removeUsingDraw g drawIndex row3 card3))
      \<longrightarrow> snd (removeUsingDraw g drawIndex row3 card3) = g) \<and>
   (isl (fst (discardDraw g drawIndex4)) \<longrightarrow> snd (discardDraw g drawIndex4) = g)"
proof (intro conjI impI)
  assume "isl (fst (startGame g deckArg doShuffle rnd numRows numDraw))"
  then show "snd (startGame g deckArg doShuffle rnd numRows numDraw) = (g, deckArg)"
    by (simp add: startGame_def Let_def
        split: option.splits sum.splits bool.splits if_splits prod.splits)
next
  assume "isl (fst (removeCard g row col))"
  then show "snd (removeCard g row col) = g"
    by (simp add: removeCard_def split: option.splits sum.splits bool.splits if_splits)
next
  assume "isl (fst (removeTwo g row1 card1 row2 card2))"
  then show "snd (removeTwo g row1 card1 row2 card2) = g"
    by (simp add: removeTwo_def Let_def split: option.splits sum.splits bool.splits if_splits)
next
  assume "isl (fst (discardDraw g drawIndex4))"
  then show "snd (discardDraw g drawIndex4) = g"
    by (auto simp add: discardDraw_def split: sum.splits if_splits)
next
  assume f: "isl (fst (removeUsingDraw g drawIndex row3 card3))"
  show "snd (removeUsingDraw g drawIndex row3 card3) = g"
  proof (rule ccontr)
    assume neq: "snd (removeUsingDraw g drawIndex row3 card3) \<noteq> g"
    let ?g1 = "g\<lparr>pyramid := setSlot (pyramid g) row3 card3 None\<rparr>"
    from neq have call: "removeUsingDraw g drawIndex row3 card3 = discardDraw ?g1 drawIndex"
      and pre: "gamestate g = STARTED" "0 \<le> drawIndex" "drawIndex < int (length (draws g))"
        "draws g ! nat drawIndex \<noteq> None"
      by (auto simp add: removeUsingDraw_def checkStarted_def started_iff
          split: option.splits sum.splits bool.splits if_splits)
    have "fst (discardDraw ?g1 drawIndex) = Inr ()"
      using pre by (intro discardDraw_ok) simp_all
    with f call show False by simp
  qed
qed

theorem failed_operation_changes_nothing_witness:
  "fst (startGame appGame (Some (map Some getDeck)) False (\<lambda>_. 0) 9 8) = Inl InsufficientCards \<and>
   snd (startGame appGame (Some (map Some getDeck)) False (\<lambda>_. 0) 9 8)
     = (appGame, Some (map Some getDeck)) \<and>
   fst (removeCard appGame 4 2) = Inl Covered \<and>
   snd (removeCard appGame 4 2) = appGame \<and>
   fst (removeTwo appGame 6 1 5 0) = Inl Covered \<and>
   snd (removeTwo appGame 6 1 5 0) = appGame \<and>
   fst (removeUsingDraw appGame 2 4 2) = Inl InvalidMove \<and>
   snd (removeUsingDraw appGame 2 4 2) = appGame \<and>
   fst (discardDraw appGame 3) = Inl OutOfBounds \<and>
   snd (discardDraw appGame 3) = appGame"
proof -
  have e1: "fst (startGame appGame (Some (map Some getDeck)) False (\<lambda>_. 0) 9 8)
      = Inl InsufficientCards"
    by (simp add: startGame_def getDeck_valid getDeck_length isEnoughCards_def)
  have e2: "fst (removeCard appGame 4 2) = Inl Covered"
    by (simp add: appGame_value removeCard_def checkStarted_def isRowInBounds_def
        isCardInBounds_def getCardAt_def isCovered_def getValue_def removalValue_def)
  have e3: "fst (removeTwo appGame 6 1 5 0) = Inl Covered"
    by (simp add: appGame_value removeTwo_def removeTwoChecks_def checkStarted_def
        isRowInBounds_def isCardInBounds_def getCardAt_def isCovered_def getValue_def
        removalValue_def)
  have e4: "fst (removeUsingDraw appGame 2 4 2) = Inl InvalidMove"
    by (simp add: appGame_value removeUsingDraw_def checkStarted_def isRowInBounds_def
        isCardInBounds_def getCardAt_def isCovered_def getValue_def removalValue_def)
  have e5: "fst (discardDraw appGame 3) = Inl OutOfBounds"
    by (simp add: appGame_value discardDraw_def checkStarted_def)
  note t = failed_operation_changes_nothing
    [of appGame "Some (map Some getDeck)" False "\<lambda>_. 0" 9 8 4 2 6 1 5 0 2 4 2 3]
  show ?thesis using t e1 e2 e3 e4 e5 by simp
qed

section \<open>Deck validation\<close>

text \<open>
  Claim C4, as stated, fails: \<open>isValidDeck\<close> compares the cards with each other and counts
  them, and never looks at a rank. The standard deck with the king of hearts replaced by
  a card of rank 14 has 52 different cards and lacks the combination (heart, 13), yet
  \<open>startGame\<close> deals it.
\<close>

theorem invalid_deck_counterexample:
  "length ((map Some getDeck)[12 := Some \<lparr>suit = HEART, rank = 14\<rparr>]) = 52 \<and>
   distinct ((map Some getDeck)[12 := Some \<lparr>suit = HEART, rank = 14\<rparr>]) \<and>
   Some \<lparr>suit = HEART, rank = 13\<rparr>
     \<notin> set ((map Some getDeck)[12 := Some \<lparr>suit = HEART, rank = 14\<rparr>]) \<and>
   fst (startGame newGame
          (Some ((map Some getDeck)[12 := Some \<lparr>suit = HEART, rank = 14\<rparr>]))
          False (\<lambda>_. 0) 7 3) = Inr () \<and>
   fst (startGame newGame
          (Some ((map Some getDeck)[12 := Some \<lparr>suit = HEART, rank = 14\<rparr>]))
          False (\<lambda>_. 0) 7 3) \<noteq> Inl InvalidDeck"
  by code_simp

text \<open>
  Claim C4, amended. \<open>startGame\<close> fails with \<open>InvalidDeck\<close> on a null deck; on a deck array
  without null elements it fails with \<open>InvalidDeck\<close> exactly when the size is not 52 or
  some (suit, rank) combination occurs twice; and every permutation of the standard deck
  passes the check.
\<close>

theorem invalid_deck_check:
  "startGame g None doShuffle rnd numRows numDraw = (Inl InvalidDeck, g, None) \<and>
   (None \<notin> set deck \<longrightarrow>
      (fst (startGame g (Some deck) doShuffle rnd numRows numDraw) = Inl InvalidDeck
         \<longleftrightarrow> length deck \<noteq> 52 \<or> \<not> distinct deck)) \<and>
   (mset perm = mset (map Some getDeck) \<longrightarrow>
      isValidDeck perm = Inr True \<and>
      fst (startGame g (Some perm) doShuffle rnd numRows numDraw) \<noteq> Inl InvalidDeck)"
proof (intro conjI impI)
  show "startGame g None doShuffle rnd numRows numDraw = (Inl InvalidDeck, g, None)"
    by (simp add: startGame_def)
next
  assume n: "None \<notin> set deck"
  show "fst (startGame g (Some deck) doShuffle rnd numRows numDraw) = Inl InvalidDeck
         \<longleftrightarrow> length deck \<noteq> 52 \<or> \<not> distinct deck"
    by (auto simp add: startGame_def isValidDeck_no_null [OF n] Let_def split: prod.splits)
next
  assume p: "mset perm = mset (map Some getDeck)"
  have "distinct (map Some getDeck)" using getDeck_valid isValidDeck_True by blast
  then have d: "distinct perm" using p by (metis mset_eq_imp_distinct_iff)
  have l: "length perm = 52" using p getDeck_length by (metis length_map size_mset)
  have "set perm = set (map Some getDeck)" using p by (metis set_mset_mset)
  then have n: "None \<notin> set perm" by auto
  show v: "isValidDeck perm = Inr True" using d l n isValidDeck_True by blast
  show "fst (startGame g (Some perm) doShuffle rnd numRows numDraw) \<noteq> Inl InvalidDeck"
    by (auto simp add: startGame_def v Let_def split: prod.splits)
qed

theorem invalid_deck_check_witness:
  "startGame newGame None False (\<lambda>_. 0) 7 3 = (Inl InvalidDeck, newGame, None) \<and>
   fst (startGame newGame
          (Some [Some \<lparr>suit = HEART, rank = 1\<rparr>, Some \<lparr>suit = HEART, rank = 1\<rparr>])
          False (\<lambda>_. 0) 7 3) = Inl InvalidDeck \<and>
   isValidDeck (rev (map Some getDeck)) = Inr True \<and>
   fst (startGame newGame (Some (rev (map Some getDeck))) False (\<lambda>_. 0) 7 3) \<noteq> Inl InvalidDeck"
proof -
  let ?two = "[Some \<lparr>suit = HEART, rank = 1\<rparr>, Some \<lparr>suit = HEART, rank = 1\<rparr>]"
  have n: "None \<notin> set ?two" by simp
  have l: "length ?two \<noteq> 52 \<or> \<not> distinct ?two" by simp
  have m: "mset (rev (map Some getDeck)) = mset (map Some getDeck)" by simp
  note t = invalid_deck_check
    [where g = newGame and doShuffle = False and rnd = "\<lambda>_. 0" and numRows = 7 and numDraw = 3
       and deck = ?two and perm = "rev (map Some getDeck)"]
  show ?thesis using t n l m by blast
qed

section \<open>Game over and score\<close>

text \<open>
  Claim C1, evaluated on the game the application starts: the pyramid is full, the king
  of spades lies in the last row (so a single removal is possible), the stock holds 21
  cards and there are three draw slots (so a discard is possible), and \<open>isGameOver\<close>
  answers \<open>true\<close>.
\<close>

theorem isGameOver_appGame:
  "gamestate appGame = STARTED \<and>
   pyramid appGame ! 6 ! 4 = Some \<lparr>suit = SPADE, rank = 13\<rparr> \<and>
   length (pyramid appGame) = 7 \<and>
   length (draws appGame) = 3 \<and>
   length (stock appGame) = 21 \<and>
   isGameOver appGame = Inr True"
  by (simp add: appGame_value isGameOver_def checkStarted_def isGameWon_always)

text \<open>
  Claim C2, evaluated on the same game: the ranks in the pyramid add up to 185 and
  \<open>getScore\<close> answers 0.
\<close>

theorem getScore_appGame:
  "gamestate appGame = STARTED \<and>
   sum_list (map (\<lambda>c. case c of None \<Rightarrow> 0 | Some k \<Rightarrow> rank k) (concat (pyramid appGame))) = 185 \<and>
   getScore appGame = Inr 0"
  by (simp add: appGame_value getScore_def checkStarted_def isGameWon_always)

section \<open>Dealing three rows and three draw cards\<close>

text \<open>
  Claim C8. \<open>startGame\<close> on a deck that passes the deck check, without shuffling, with three
  rows and three draw cards, deals rows of one, two and three slots holding the first six
  cards of the deck in order, puts the next three cards into the draw pile front to back,
  and leaves the remaining 43 cards as the stock in their order; the caller's deck array
  is the same after the call.
\<close>

theorem startGame_three_rows_three_draws:
  assumes "isValidDeck deck = Inr True"
  shows "startGame g (Some deck) False rnd 3 3 =
     (Inr (),
      \<lparr>pyramid = [[deck ! 0], [deck ! 1, deck ! 2], [deck ! 3, deck ! 4, deck ! 5]],
         stock = drop 9 deck,
         draws = [deck ! 6, deck ! 7, deck ! 8],
         gamestate = STARTED\<rparr>,
      Some deck) \<and>
     length deck = 52 \<and> length (drop 9 deck) = 43"
proof -
  have l: "length deck = 52" using assms isValidDeck_True by blast
  then have e: "deck ! 0 # deck ! 1 # deck ! 2 # deck ! 3 # deck ! 4 # deck ! 5 # deck ! 6 #
      deck ! 7 # deck ! 8 # drop 9 deck = deck"
    by (intro first_nine) simp
  have v: "isValidDeck (deck ! 0 # deck ! 1 # deck ! 2 # deck ! 3 # deck ! 4 # deck ! 5 #
      deck ! 6 # deck ! 7 # deck ! 8 # drop 9 deck) = Inr True"
    unfolding e by (rule assms)
  note s = startGame_3_3_explicit [OF v, of g rnd, unfolded e]
  show ?thesis using s l by simp
qed

theorem startGame_three_rows_three_draws_witness:
  "startGame newGame (Some (map Some getDeck)) False (\<lambda>_. 0) 3 3 =
     (Inr (),
      \<lparr>pyramid = [[map Some getDeck ! 0], [map Some getDeck ! 1, map Some getDeck ! 2],
                   [map Some getDeck ! 3, map Some getDeck ! 4, map Some getDeck ! 5]],
         stock = drop 9 (map Some getDeck),
         draws = [map Some getDeck ! 6, map Some getDeck ! 7, map Some getDeck ! 8],
         gamestate = STARTED\<rparr>,
      Some (map Some getDeck)) \<and>
   map Some getDeck ! 8 = Some \<lparr>suit = HEART, rank = 9\<rparr> \<and>
   length (drop 9 (map Some getDeck)) = 43"
proof -
  have n: "map Some getDeck ! 8 = Some \<lparr>suit = HEART, rank = 9\<rparr>" by code_simp
  show ?thesis
    using startGame_three_rows_three_draws [OF getDeck_valid, of newGame "\<lambda>_. 0"] n by simp
qed

section \<open>Conservation of cards\<close>

text \<open>
  Claim C3, as stated, fails: a discard takes a card out of the game, so after one
  \<open>discardDraw\<close> on the freshly dealt game 51 cards are left in pyramid, draw pile and stock,
  while the deck size minus the cleared pyramid slots is still 52.
\<close>

theorem conservation_counterexample:
  "startGame newGame (Some (map Some getDeck)) False (\<lambda>_. 0) 7 3
     = (Inr (), appGame, Some (map Some getDeck)) \<and>
   runMoves appGame [DiscardDraw 0] = Some (snd (discardDraw appGame 0)) \<and>
   cardsInPlay (snd (discardDraw appGame 0)) = 51 \<and>
   length getDeck - sum_list (map spec_removedCount [DiscardDraw 0]) = 52 \<and>
   cardsInPlay (snd (discardDraw appGame 0))
     \<noteq> length getDeck - sum_list (map spec_removedCount [DiscardDraw 0])"
proof -
  have ok: "fst (discardDraw appGame 0) = Inr ()"
    by (simp add: appGame_value discardDraw_def checkStarted_def)
  then have "runMoves appGame [DiscardDraw 0] = Some (snd (discardDraw appGame 0))"
    by (simp add: split_beta split: sum.splits)
  moreover have "cardsInPlay (snd (discardDraw appGame 0)) = 51"
    by (simp add: appGame_value discardDraw_def checkStarted_def cardsInPlay_def
        countNonEmpty_def)
  ultimately show ?thesis using appGame_start getDeck_length by simp
qed

text \<open>
  Claim C3, amended. After a successful \<open>startGame\<close> and any sequence of successful moves,
  the non-empty pyramid slots, the non-empty draw slots and the stock together hold the
  deck size (52) minus the cards taken out, where \<open>remove\<close> takes out one card,
  \<open>removeTwo\<close> two, \<open>removeUsingDraw\<close> two (the pyramid card and the draw card) and
  \<open>discardDraw\<close> one.
\<close>

theorem cards_conserved:
  assumes "startGame g (Some deck) doShuffle rnd numRows numDraw = (Inr (), g1, deck')"
    and "runMoves g1 ms = Some g2"
  shows "length deck = 52 \<and>
         sum_list (map cardsTakenOut ms) \<le> length deck \<and>
         cardsInPlay g2 = length deck - sum_list (map cardsTakenOut ms)"
proof -
  note s = startGame_deals_all [OF assms(1)]
  from runMoves_count [OF assms(2) s(2)] s(1) s(3) show ?thesis by simp
qed

theorem cards_conserved_witness:
  "startGame newGame (Some (map Some getDeck)) False (\<lambda>_. 0) 7 3
     = (Inr (), appGame, Some (map Some getDeck)) \<and>
   runMoves appGame [Remove 6 4, RemoveTwo 6 3 6 5, RemoveUsingDraw 0 6 1, DiscardDraw 0]
     \<noteq> None \<and>
   sum_list (map cardsTakenOut
     [Remove 6 4, RemoveTwo 6 3 6 5, RemoveUsingDraw 0 6 1, DiscardDraw 0]) = 6 \<and>
   cardsInPlay (the (runMoves appGame
     [Remove 6 4, RemoveTwo 6 3 6 5, RemoveUsingDraw 0 6 1, DiscardDraw 0])) = 46"
proof -
  let ?ms = "[Remove 6 4, RemoveTwo 6 3 6 5, RemoveUsingDraw 0 6 1, DiscardDraw 0]"
  have r: "runMoves appGame ?ms \<noteq> None"
    by code_simp
  then have run: "runMoves appGame ?ms = Some (the (runMoves appGame ?ms))" by simp
  have t: "sum_list (map cardsTakenOut ?ms) = 6" by simp
  note c = cards_conserved [OF appGame_start run]
  show ?thesis using c r t appGame_start getDeck_length by simp
qed

end
